theory Spec2Isabelle
  imports Complex_Main "HOL-Library.Multiset" "HOL-Library.Option_ord" "HOL-Library.AList"
begin

section \<open>Data model (app/models.py)\<close>

text \<open>
  A \<open>datetime\<close> is a count of microseconds since the epoch (the resolution of Python's
  \<open>datetime\<close>); \<open>time()\<close> is a float, read here as a real number: only its order is used.
  The relational store is a record of tables, each table the list of its rows. Fields are
  named after the columns, prefixed where two models share a column name.
\<close>

type_synonym datetime = int

definition timedelta :: "int \<Rightarrow> int" where
  "timedelta seconds = seconds * 1000000"

record user =
  uid :: int
  username :: string
  email :: string
  token :: "string option"
  token_expiration :: "datetime option"

record post =
  post_id :: int
  body :: string
  post_timestamp :: datetime
  post_user_id :: int

record notification =
  notification_id :: int
  name :: string
  notification_user_id :: int
  timestamp :: real
  payload_json :: string

record task =
  task_id :: string
  task_name :: string
  description :: "string option"
  task_user_id :: int
  complete :: bool

text \<open>
  \<open>followers\<close> is the association table: a row is the pair (follower_id, followed_id).
  \<open>notification_seq\<close> is the autoincrement counter of the notification table.
\<close>

record db =
  users :: "user list"
  followers :: "(int \<times> int) list"
  posts :: "post list"
  notifications :: "notification list"
  notification_seq :: int
  tasks :: "task list"

section \<open>Social graph (User.follow, unfollow, is_following, counts)\<close>

text \<open>
  \<open>self.following.select()\<close> joins the association table with the user table on
  \<open>followed_id\<close>, restricted to the rows whose \<open>follower_id\<close> is \<open>self.id\<close>;
  \<open>self.followers.select()\<close> is the mirror image.
\<close>

definition following_select :: "db \<Rightarrow> user \<Rightarrow> user list" where
  "following_select d self =
     [u. (follower_id, followed_id) \<leftarrow> followers d, follower_id = uid self,
         u \<leftarrow> users d, uid u = followed_id]"

definition followers_select :: "db \<Rightarrow> user \<Rightarrow> user list" where
  "followers_select d self =
     [u. (follower_id, followed_id) \<leftarrow> followers d, followed_id = uid self,
         u \<leftarrow> users d, uid u = follower_id]"

definition is_following :: "db \<Rightarrow> user \<Rightarrow> user \<Rightarrow> bool" where
  "is_following d self usr =
     (filter (\<lambda>u. uid u = uid usr) (following_select d self) \<noteq> [])"

definition follow :: "db \<Rightarrow> user \<Rightarrow> user \<Rightarrow> db" where
  "follow d self usr =
     (if \<not> is_following d self usr
      then d\<lparr>followers := followers d @ [(uid self, uid usr)]\<rparr>
      else d)"

definition unfollow :: "db \<Rightarrow> user \<Rightarrow> user \<Rightarrow> db" where
  "unfollow d self usr =
     (if is_following d self usr
      then d\<lparr>followers := filter (\<lambda>row. row \<noteq> (uid self, uid usr)) (followers d)\<rparr>
      else d)"

definition followers_count :: "db \<Rightarrow> user \<Rightarrow> nat" where
  "followers_count d self = length (followers_select d self)"

definition following_count :: "db \<Rightarrow> user \<Rightarrow> nat" where
  "following_count d self = length (following_select d self)"

section \<open>Timeline (User.following_posts)\<close>

text \<open>
  The query joins every post with its author, left-outer-joins the author with its
  followers (an author nobody follows keeps one row, with no follower), keeps the rows
  whose follower or author is \<open>self\<close>, groups by all columns of the post and orders by
  timestamp, latest first. The order among equal timestamps is the store's choice; the
  model takes a stable sort.
\<close>

definition author_followers :: "db \<Rightarrow> user \<Rightarrow> user option list" where
  "author_followers d author =
     (case followers_select d author of
        [] \<Rightarrow> [None]
      | fs \<Rightarrow> map Some fs)"

definition group_by :: "'a list \<Rightarrow> 'a list" where
  "group_by rows = remdups rows"

definition order_by_desc :: "('a \<Rightarrow> int) \<Rightarrow> 'a list \<Rightarrow> 'a list" where
  "order_by_desc key rows = sort_key (\<lambda>r. - key r) rows"

definition following_posts :: "db \<Rightarrow> user \<Rightarrow> post list" where
  "following_posts d self =
     (let joined = [(p, author, follower).
                      p \<leftarrow> posts d,
                      author \<leftarrow> users d, uid author = post_user_id p,
                      follower \<leftarrow> author_followers d author];
          kept = filter (\<lambda>(p, author, follower).
                    map_option uid follower = Some (uid self) \<or> uid author = uid self) joined
      in order_by_desc post_timestamp (group_by (map fst kept)))"

section \<open>Notifications (User.add_notification, Notification.get_data, the notifications route)\<close>

text \<open>
  A payload is a JSON value. \<open>json.dumps\<close> and \<open>json.loads\<close> belong to the standard
  library; they are parameters \<open>dumps\<close> and \<open>loads\<close> of the functions that call them.
\<close>

datatype json = JInt int | JFloat real | JStr string | JDict "(string \<times> json) list"

text \<open>
  \<open>add_notification\<close> deletes the rows of \<open>self\<close> with the given name, then adds one row.
  The session flushes a pending row before it runs the next DELETE, so a row added by an
  earlier call is a row of the table for a later call. The timestamp column defaults to
  \<open>time()\<close>, here \<open>now\<close>.
\<close>

definition add_notification ::
  "(json \<Rightarrow> string) \<Rightarrow> real \<Rightarrow> db \<Rightarrow> user \<Rightarrow> string \<Rightarrow> json \<Rightarrow> db \<times> notification" where
  "add_notification dumps now d self nm data =
     (let remaining = filter (\<lambda>n. \<not> (notification_user_id n = uid self \<and> name n = nm))
                        (notifications d);
          n = \<lparr>notification_id = notification_seq d, name = nm,
               notification_user_id = uid self, timestamp = now,
               payload_json = dumps data\<rparr>
      in (d\<lparr>notifications := remaining @ [n],
             notification_seq := notification_seq d + 1\<rparr>, n))"

definition get_data :: "(string \<Rightarrow> json) \<Rightarrow> notification \<Rightarrow> json" where
  "get_data loads n = loads (payload_json n)"

text \<open>A sequence of \<open>add_notification\<close> calls: (time, account, name, payload) each.\<close>

fun add_notifications ::
  "(json \<Rightarrow> string) \<Rightarrow> db \<Rightarrow> (real \<times> user \<times> string \<times> json) list \<Rightarrow> db" where
  "add_notifications dumps d [] = d"
| "add_notifications dumps d ((now, self, nm, data) # calls) =
     add_notifications dumps (fst (add_notification dumps now d self nm data)) calls"

definition live :: "db \<Rightarrow> int \<Rightarrow> string \<Rightarrow> notification list" where
  "live d account nm =
     filter (\<lambda>n. notification_user_id n = account \<and> name n = nm) (notifications d)"

definition empty_db :: db where
  "empty_db = \<lparr>users = [], followers = [], posts = [], notifications = [],
                notification_seq = 1, tasks = []\<rparr>"

text \<open>The route \<open>/notifications\<close>: the query, and the list of dictionaries it returns.\<close>

definition notifications_query :: "db \<Rightarrow> user \<Rightarrow> real \<Rightarrow> notification list" where
  "notifications_query d current_user since =
     sort_key timestamp
       (filter (\<lambda>n. notification_user_id n = uid current_user \<and> timestamp n > since)
          (notifications d))"

definition notifications_view ::
  "(string \<Rightarrow> json) \<Rightarrow> db \<Rightarrow> user \<Rightarrow> real \<Rightarrow> (string \<times> json \<times> real) list" where
  "notifications_view loads d current_user since =
     map (\<lambda>n. (name n, get_data loads n, timestamp n)) (notifications_query d current_user since)"

section \<open>Exceptions\<close>

text \<open>
  The exceptions the modelled code can meet. \<open>SystemExit\<close> stands for the exceptions
  that are not instances of \<open>Exception\<close>, which \<open>except Exception\<close> does not catch.
\<close>

datatype exn =
    AttributeError | KeyError | TypeError | ZeroDivisionError
  | DecodeError | InvalidAlgorithmError | InvalidSignatureError | ExpiredSignatureError
  | ConnectionError | NotFoundError | OperationalError
  | MailError | SystemExit

definition is_Exception :: "exn \<Rightarrow> bool" where
  "is_Exception e = (e \<noteq> SystemExit)"

section \<open>Tokens (get_token, revoke_token, check_token, reset-password tokens)\<close>

definition update_user :: "db \<Rightarrow> user \<Rightarrow> db" where
  "update_user d u' = d\<lparr>users := map (\<lambda>u. if uid u = uid u' then u' else u) (users d)\<rparr>"

text \<open>
  \<open>fresh\<close> is the value \<open>secrets.token_hex(16)\<close> returns. A user with a token and no
  expiry makes \<open>self.token_expiration.replace\<close> raise.
\<close>

definition get_token :: "string \<Rightarrow> datetime \<Rightarrow> db \<Rightarrow> user \<Rightarrow> int \<Rightarrow> exn + (db \<times> string)" where
  "get_token fresh now d self expires_in =
     (let renew = (let self' = self\<lparr>token := Some fresh,
                                   token_expiration := Some (now + timedelta expires_in)\<rparr>
                   in Inr (update_user d self', fresh))
      in case token self of
           None \<Rightarrow> renew
         | Some t \<Rightarrow>
             if t = [] then renew
             else (case token_expiration self of
                     None \<Rightarrow> Inl AttributeError
                   | Some expiry \<Rightarrow>
                       if expiry > now + timedelta 60 then Inr (d, t) else renew))"

definition revoke_token :: "datetime \<Rightarrow> db \<Rightarrow> user \<Rightarrow> db" where
  "revoke_token now d self = update_user d (self\<lparr>token_expiration := Some (now - timedelta 1)\<rparr>)"

definition check_token :: "datetime \<Rightarrow> db \<Rightarrow> string \<Rightarrow> exn + user option" where
  "check_token now d tok =
     (case find (\<lambda>u. token u = Some tok) (users d) of
        None \<Rightarrow> Inr None
      | Some usr \<Rightarrow>
          (case token_expiration usr of
             None \<Rightarrow> Inl AttributeError
           | Some expiry \<Rightarrow> if expiry < now then Inr None else Inr (Some usr)))"

text \<open>
  JSON web tokens are symbolic: a string that is no token at all, or claims signed with a
  key under an algorithm. \<open>jwt_encode\<close> and \<open>jwt_decode\<close> stand for \<open>jwt.encode\<close> and
  \<open>jwt.decode\<close> of the PyJWT library: decoding raises on a string that is no token, on
  an algorithm that is not allowed, on a signature made with another key, and on an
  \<open>exp\<close> claim that is not a number or whose integer part is not after the current time.
\<close>

datatype jwt = Garbage string | Jwt (jwt_alg: string) (jwt_key: string) (jwt_claims: "(string \<times> json) list")

definition jwt_encode :: "(string \<times> json) list \<Rightarrow> string \<Rightarrow> string \<Rightarrow> jwt" where
  "jwt_encode claims key algorithm = Jwt algorithm key claims"

definition validate_exp :: "real \<Rightarrow> (string \<times> json) list \<Rightarrow> exn option" where
  "validate_exp now claims =
     (case map_of claims ''exp'' of
        None \<Rightarrow> None
      | Some (JInt e) \<Rightarrow> if of_int e \<le> now then Some ExpiredSignatureError else None
      | Some (JFloat e) \<Rightarrow>
          if (of_int (if e < 0 then \<lceil>e\<rceil> else \<lfloor>e\<rfloor>) :: real) \<le> now
          then Some ExpiredSignatureError else None
      | Some _ \<Rightarrow> Some DecodeError)"

definition jwt_decode :: "real \<Rightarrow> jwt \<Rightarrow> string \<Rightarrow> string list \<Rightarrow> exn + (string \<times> json) list" where
  "jwt_decode now tok key algorithms =
     (case tok of
        Garbage _ \<Rightarrow> Inl DecodeError
      | Jwt alg k claims \<Rightarrow>
          if alg \<notin> set algorithms then Inl InvalidAlgorithmError
          else if k \<noteq> key then Inl InvalidSignatureError
          else (case validate_exp now claims of
                  Some e \<Rightarrow> Inl e
                | None \<Rightarrow> Inr claims))"

definition get_reset_password_token :: "string \<Rightarrow> real \<Rightarrow> user \<Rightarrow> real \<Rightarrow> jwt" where
  "get_reset_password_token secret_key now self expires_in =
     jwt_encode [(''reset_password'', JInt (uid self)), (''exp'', JFloat (now + expires_in))]
       secret_key ''HS256''"

text \<open>
  \<open>db.session.get(User, id)\<close>: the row with that primary key, if any. The claim of a
  signed token may hold any JSON value; one that is not an integer matches no row.
\<close>

fun session_get_user :: "db \<Rightarrow> json \<Rightarrow> user option" where
  "session_get_user d (JInt i) = find (\<lambda>u. uid u = i) (users d)"
| "session_get_user d _ = None"

definition verify_reset_password_token :: "string \<Rightarrow> real \<Rightarrow> db \<Rightarrow> jwt \<Rightarrow> user option" where
  "verify_reset_password_token secret_key now d tok =
     (case jwt_decode now tok secret_key [''HS256''] of
        Inl _ \<Rightarrow> None
      | Inr claims \<Rightarrow>
          (case map_of claims ''reset_password'' of
             None \<Rightarrow> None
           | Some i \<Rightarrow> session_get_user d i))"

section \<open>Search index (app/search.py)\<close>

text \<open>
  The search engine is reached through a client object, \<open>current_app.elasticsearch\<close>,
  which is \<open>None\<close> when no engine is configured. The engine is the external
  collaborator of the specification's section 6: \<open>index\<close> stores a document under
  (index name, document id), replacing an older one; \<open>delete\<close> removes it; \<open>search\<close>
  answers with the ids of the hits of the requested page and the total count. The
  client raises when the engine cannot be reached, and when \<open>delete\<close> names a document
  the index does not hold. What the engine answers to a search is its own business:
  the field \<open>answer\<close>.
\<close>

type_synonym document = "(string \<times> json) list"

record elasticsearch =
  reachable :: bool
  documents :: "string \<times> json \<rightharpoonup> document"
  answer :: "string \<Rightarrow> string \<Rightarrow> int \<Rightarrow> int \<Rightarrow> int list \<times> int"

definition es_index :: "elasticsearch \<Rightarrow> string \<Rightarrow> json \<Rightarrow> document \<Rightarrow> exn + elasticsearch" where
  "es_index c index ident doc =
     (if \<not> reachable c then Inl ConnectionError
      else Inr (c\<lparr>documents := (documents c)((index, ident) \<mapsto> doc)\<rparr>))"

definition es_delete :: "elasticsearch \<Rightarrow> string \<Rightarrow> json \<Rightarrow> exn + elasticsearch" where
  "es_delete c index ident =
     (if \<not> reachable c then Inl ConnectionError
      else if documents c (index, ident) = None then Inl NotFoundError
      else Inr (c\<lparr>documents := (documents c)((index, ident) := None)\<rparr>))"

definition es_search :: "elasticsearch \<Rightarrow> string \<Rightarrow> string \<Rightarrow> int \<Rightarrow> int \<Rightarrow> exn + int list \<times> int" where
  "es_search c index query offset limit =
     (if \<not> reachable c then Inl ConnectionError else Inr (answer c index query offset limit))"

text \<open>
  The objects of a session. Only \<open>Post\<close> derives from \<open>SearchableMixin\<close>; its
  \<open>__searchable__\<close> is \<open>['body']\<close>. The table name of a model is its class name in
  lower case.
\<close>

record message =
  message_id :: int
  sender_id :: int
  recipient_id :: int
  message_body :: string
  message_timestamp :: datetime

datatype entity =
    PostE post | UserE user | MessageE message | NotificationE notification | TaskE task

fun is_searchable :: "entity \<Rightarrow> bool" where
  "is_searchable (PostE _) = True"
| "is_searchable _ = False"

fun tablename :: "entity \<Rightarrow> string" where
  "tablename (PostE _) = ''post''"
| "tablename (UserE _) = ''user''"
| "tablename (MessageE _) = ''message''"
| "tablename (NotificationE _) = ''notification''"
| "tablename (TaskE _) = ''task''"

fun entity_id :: "entity \<Rightarrow> json" where
  "entity_id (PostE p) = JInt (post_id p)"
| "entity_id (UserE u) = JInt (uid u)"
| "entity_id (MessageE m) = JInt (message_id m)"
| "entity_id (NotificationE n) = JInt (notification_id n)"
| "entity_id (TaskE t) = JStr (task_id t)"

fun searchable :: "entity \<Rightarrow> string list option" where
  "searchable (PostE _) = Some [''body'']"
| "searchable _ = None"

fun getattr :: "entity \<Rightarrow> string \<Rightarrow> json option" where
  "getattr (PostE p) field =
     (if field = ''body'' then Some (JStr (body p))
      else if field = ''id'' then Some (JInt (post_id p))
      else if field = ''user_id'' then Some (JInt (post_user_id p))
      else None)"
| "getattr _ field = None"

text \<open>
  The payload loop of \<open>add_to_index\<close>: one entry per searchable field, \<open>AttributeError\<close>
  on a field the model does not have.
\<close>

fun build_payload :: "entity \<Rightarrow> string list \<Rightarrow> document \<Rightarrow> exn + document" where
  "build_payload model [] payload = Inr payload"
| "build_payload model (field # rest) payload =
     (case getattr model field of
        None \<Rightarrow> Inl AttributeError
      | Some v \<Rightarrow> build_payload model rest (AList.update field v payload))"

definition add_to_index :: "elasticsearch option \<Rightarrow> string \<Rightarrow> entity \<Rightarrow> exn + elasticsearch option" where
  "add_to_index es index model =
     (case es of
        None \<Rightarrow> Inr None
      | Some c \<Rightarrow>
          (case searchable model of
             None \<Rightarrow> Inl AttributeError
           | Some field_names \<Rightarrow>
               (case build_payload model field_names [] of
                  Inl e \<Rightarrow> Inl e
                | Inr payload \<Rightarrow> map_sum id Some (es_index c index (entity_id model) payload))))"

definition remove_from_index :: "elasticsearch option \<Rightarrow> string \<Rightarrow> entity \<Rightarrow> exn + elasticsearch option" where
  "remove_from_index es index model =
     (case es of
        None \<Rightarrow> Inr None
      | Some c \<Rightarrow> map_sum id Some (es_delete c index (entity_id model)))"

definition query_index ::
  "elasticsearch option \<Rightarrow> string \<Rightarrow> string \<Rightarrow> int \<Rightarrow> int \<Rightarrow> exn + int list \<times> int" where
  "query_index es index query page per_page =
     (case es of
        None \<Rightarrow> Inr ([], 0)
      | Some c \<Rightarrow> es_search c index query ((page - 1) * per_page) per_page)"

section \<open>Search index mirror (SearchableMixin)\<close>

text \<open>
  \<open>search\<close> turns the ids of the hits into posts. The query keeps the rows whose id is
  among the ids and orders them by \<open>CASE post.id WHEN ids[0] THEN 0 WHEN ids[1] THEN 1 ...\<close>:
  the first branch that matches gives the sort key, a row that matches none has the key
  NULL (least, as \<open>None\<close> is in the order on options). A CASE expression with no WHEN
  branch is not SQL: the store rejects the statement when it is run.
\<close>

definition sql_case :: "(int \<times> int) list \<Rightarrow> int \<Rightarrow> int option" where
  "sql_case whens v = map_of whens v"

definition select_in_order_by_case :: "post list \<Rightarrow> int list \<Rightarrow> (int \<times> int) list \<Rightarrow> exn + post list" where
  "select_in_order_by_case table ids whens =
     (if whens = [] then Inl OperationalError
      else Inr (sort_key (\<lambda>p. sql_case whens (post_id p))
                  (filter (\<lambda>p. post_id p \<in> set ids) table)))"

text \<open>The list \<open>when\<close> that \<open>search\<close> builds: the pair (ids[i], i) for every position i.\<close>

definition whens_of :: "int list \<Rightarrow> (int \<times> int) list" where
  "whens_of ids = map (\<lambda>i. (ids ! i, int i)) [0 ..< length ids]"

definition search ::
  "elasticsearch option \<Rightarrow> db \<Rightarrow> string \<Rightarrow> int \<Rightarrow> int \<Rightarrow> exn + post list \<times> int" where
  "search es d expression page per_page =
     (case query_index es ''post'' expression page per_page of
        Inl e \<Rightarrow> Inl e
      | Inr (ids, total') \<Rightarrow>
          if total' = 0 then Inr ([], 0)
          else
            (let whens = whens_of ids
             in case select_in_order_by_case (posts d) ids whens of
                  Inl e \<Rightarrow> Inl e
                | Inr rows \<Rightarrow> Inr (rows, total')))"

text \<open>
  The session holds the objects it is about to insert (\<open>new\<close>), update (\<open>dirty\<close>) and
  delete (\<open>deleted\<close>); \<open>_changes\<close> is the snapshot \<open>before_commit\<close> takes of them.
\<close>

record changes =
  add :: "entity list"
  update :: "entity list"
  delete :: "entity list"

record session =
  new :: "entity list"
  dirty :: "entity list"
  deleted :: "entity list"
  session_changes :: "changes option"

definition before_commit :: "session \<Rightarrow> session" where
  "before_commit s =
     s\<lparr>session_changes := Some \<lparr>add = new s, update = dirty s, delete = deleted s\<rparr>\<rparr>"

text \<open>
  The three loops of \<open>after_commit\<close>. An exception leaves the loop; the requests the
  engine has served so far stay served, so the engine is returned with the exception.
\<close>

fun add_loop :: "elasticsearch option \<Rightarrow> entity list \<Rightarrow> elasticsearch option \<times> exn option" where
  "add_loop es [] = (es, None)"
| "add_loop es (obj # objs) =
     (if is_searchable obj
      then (case add_to_index es (tablename obj) obj of
              Inl e \<Rightarrow> (es, Some e)
            | Inr es' \<Rightarrow> add_loop es' objs)
      else add_loop es objs)"

fun remove_loop :: "elasticsearch option \<Rightarrow> entity list \<Rightarrow> elasticsearch option \<times> exn option" where
  "remove_loop es [] = (es, None)"
| "remove_loop es (obj # objs) =
     (if is_searchable obj
      then (case remove_from_index es (tablename obj) obj of
              Inl e \<Rightarrow> (es, Some e)
            | Inr es' \<Rightarrow> remove_loop es' objs)
      else remove_loop es objs)"

definition after_commit ::
  "elasticsearch option \<Rightarrow> session \<Rightarrow> (elasticsearch option \<times> session) \<times> exn option" where
  "after_commit es s =
     (case session_changes s of
        None \<Rightarrow> ((es, s), Some TypeError)
      | Some ch \<Rightarrow>
          (case add_loop es (add ch) of
             (es1, Some e) \<Rightarrow> ((es1, s), Some e)
           | (es1, None) \<Rightarrow>
               (case add_loop es1 (update ch) of
                  (es2, Some e) \<Rightarrow> ((es2, s), Some e)
                | (es2, None) \<Rightarrow>
                    (case remove_loop es2 (delete ch) of
                       (es3, Some e) \<Rightarrow> ((es3, s), Some e)
                     | (es3, None) \<Rightarrow> ((es3, s\<lparr>session_changes := None\<rparr>), None)))))"

section \<open>Background tasks (app/tasks.py)\<close>

text \<open>
  The worker's world: the store, the job the worker is running (\<open>get_current_job()\<close>,
  \<open>None\<close> outside a worker), the errors written to the application log, the wall
  clock, and the mails sent (recipient and exported posts).
\<close>

record rq_job =
  job_id :: string
  meta :: "string \<rightharpoonup> int"

record world =
  store :: db
  current_job :: "rq_job option"
  logged :: "exn list"
  clock :: real
  outbox :: "(string \<times> (string \<times> datetime) list) list"

text \<open>
  \<open>_set_task_progress\<close>. \<open>db.session.get(Task, id)\<close> is \<open>None\<close> when the table has no
  such task, and \<open>task.user\<close> is \<open>None\<close> when the owner's row is missing: the attribute
  access on \<open>None\<close> raises, after the job's meta data has been saved.
\<close>

definition set_task_progress :: "(json \<Rightarrow> string) \<Rightarrow> world \<Rightarrow> int \<Rightarrow> world \<times> exn option" where
  "set_task_progress dumps w progress =
     (case current_job w of
        None \<Rightarrow> (w, None)
      | Some job \<Rightarrow>
          (let job' = job\<lparr>meta := (meta job)(''progress'' \<mapsto> progress)\<rparr>;
               w1 = w\<lparr>current_job := Some job'\<rparr>
           in case find (\<lambda>t. task_id t = job_id job') (tasks (store w1)) of
                None \<Rightarrow> (w1, Some AttributeError)
              | Some tsk \<Rightarrow>
                  (case find (\<lambda>u. uid u = task_user_id tsk) (users (store w1)) of
                     None \<Rightarrow> (w1, Some AttributeError)
                   | Some owner \<Rightarrow>
                       (let d1 = fst (add_notification dumps (clock w1) (store w1) owner
                                       ''task_progress''
                                       (JDict [(''task_id'', JStr (job_id job')),
                                               (''progress'', JInt progress)]));
                            d2 = (if progress \<ge> 100
                                  then d1\<lparr>tasks := map (\<lambda>t. if task_id t = task_id tsk
                                                               then t\<lparr>complete := True\<rparr> else t)
                                                     (tasks d1)\<rparr>
                                  else d1)
                        in (w1\<lparr>store := d2\<rparr>, None)))))"

text \<open>
  An exception that comes from outside the modelled code (the sleep interrupted, the
  template renderer, the mail transport) is the parameter \<open>fault\<close>: \<open>Some (k, e)\<close>
  raises \<open>e\<close> in the pass of the loop that follows \<open>k\<close> exported posts, or in
  \<open>send_email\<close> when the loop ends before that.
\<close>

fun export_loop ::
  "(json \<Rightarrow> string) \<Rightarrow> (nat \<times> exn) option \<Rightarrow> nat \<Rightarrow> world \<Rightarrow> nat \<Rightarrow> post list \<Rightarrow>
     (string \<times> datetime) list \<Rightarrow> world \<times> (string \<times> datetime) list \<times> exn option" where
  "export_loop dumps fault total_posts w posts_count [] data = (w, data, None)"
| "export_loop dumps fault total_posts w posts_count (p # rest) data =
     (let data' = data @ [(body p, post_timestamp p)]
      in case (case fault of Some (k, e) \<Rightarrow> if k = posts_count then Some e else None
                           | None \<Rightarrow> None) of
           Some e \<Rightarrow> (w, data', Some e)
         | None \<Rightarrow>
             (let w1 = w\<lparr>clock := clock w + 5\<rparr>;
                  posts_count' = Suc posts_count
              in if total_posts = 0 then (w1, data', Some ZeroDivisionError)
                 else (case set_task_progress dumps w1
                              (100 * int posts_count' div int total_posts) of
                         (w2, Some e) \<Rightarrow> (w2, data', Some e)
                       | (w2, None) \<Rightarrow>
                           export_loop dumps fault total_posts w2 posts_count' rest data')))"

definition export_body ::
  "(json \<Rightarrow> string) \<Rightarrow> (nat \<times> exn) option \<Rightarrow> world \<Rightarrow> int \<Rightarrow> world \<times> exn option" where
  "export_body dumps fault w user_id =
     (let usr = find (\<lambda>u. uid u = user_id) (users (store w))
      in case set_task_progress dumps w 0 of
           (w1, Some e) \<Rightarrow> (w1, Some e)
         | (w1, None) \<Rightarrow>
             (case usr of
                None \<Rightarrow> (w1, Some AttributeError)
              | Some u \<Rightarrow>
                  (let user_posts = filter (\<lambda>p. post_user_id p = uid u) (posts (store w1));
                       total_posts = length user_posts
                   in case export_loop dumps fault total_posts w1 0
                             (sort_key post_timestamp user_posts) [] of
                        (w2, data, Some e) \<Rightarrow> (w2, Some e)
                      | (w2, data, None) \<Rightarrow>
                          (case fault of
                             Some (k, e) \<Rightarrow> (w2, Some e)
                           | None \<Rightarrow> (w2\<lparr>outbox := outbox w2 @ [(email u, data)]\<rparr>, None)))))"

text \<open>
  \<open>export_posts\<close>: the body under \<open>try\<close>; \<open>except Exception\<close> reports progress 100 and
  logs the error; \<open>finally\<close> reports progress 100 whatever happened. An exception that
  is not an \<open>Exception\<close> passes the handler and is raised again after \<open>finally\<close>; an
  exception raised by the handler or by \<open>finally\<close> itself is the one that leaves the
  function.
\<close>

definition export_posts ::
  "(json \<Rightarrow> string) \<Rightarrow> (nat \<times> exn) option \<Rightarrow> world \<Rightarrow> int \<Rightarrow> world \<times> exn option" where
  "export_posts dumps fault w user_id =
     (let (w1, raised) = export_body dumps fault w user_id;
          (w2, pending) =
            (case raised of
               None \<Rightarrow> (w1, None)
             | Some e \<Rightarrow>
                 if is_Exception e
                 then (case set_task_progress dumps w1 100 of
                         (w', Some e') \<Rightarrow> (w', Some e')
                       | (w', None) \<Rightarrow> (w'\<lparr>logged := logged w' @ [e]\<rparr>, None))
                 else (w1, Some e))
      in case set_task_progress dumps w2 100 of
           (w3, Some e3) \<Rightarrow> (w3, Some e3)
         | (w3, None) \<Rightarrow> (w3, pending))"

section \<open>Notions used in the statements\<close>


text \<open>
  Helpers for the proofs about the worker: the job, its task and the task's owner are
  in place; and the update that marks the tasks with a given id complete.
\<close>

definition task_ready :: "world \<Rightarrow> string \<Rightarrow> int \<Rightarrow> bool" where
  "task_ready w jid owner_id \<longleftrightarrow>
     map_option job_id (current_job w) = Some jid
     \<and> map_option task_user_id (find (\<lambda>t. task_id t = jid) (tasks (store w))) = Some owner_id
     \<and> find (\<lambda>u. uid u = owner_id) (users (store w)) \<noteq> None"

definition mark_complete :: "string \<Rightarrow> task \<Rightarrow> task" where
  "mark_complete k t = (if task_id t = k then t\<lparr>complete := True\<rparr> else t)"

section \<open>Example data\<close>

definition alice :: user where
  "alice = \<lparr>uid = 1, username = ''alice'', email = ''alice@example.com'',
             token = None, token_expiration = None\<rparr>"

definition bob :: user where
  "bob = \<lparr>uid = 2, username = ''bob'', email = ''bob@example.com'',
           token = None, token_expiration = None\<rparr>"

definition carol :: user where
  "carol = \<lparr>uid = 3, username = ''carol'', email = ''carol@example.com'',
             token = None, token_expiration = None\<rparr>"

definition example_posts :: "post list" where
  "example_posts =
     [\<lparr>post_id = 1, body = ''hello'', post_timestamp = 10, post_user_id = 2\<rparr>,
      \<lparr>post_id = 2, body = ''mine'', post_timestamp = 20, post_user_id = 1\<rparr>,
      \<lparr>post_id = 3, body = ''other'', post_timestamp = 30, post_user_id = 3\<rparr>,
      \<lparr>post_id = 4, body = ''again'', post_timestamp = 40, post_user_id = 2\<rparr>]"

text \<open>alice follows herself and bob; carol follows bob.\<close>

definition example_db :: db where
  "example_db = \<lparr>users = [alice, bob, carol], followers = [(1, 1), (1, 2), (3, 2)],
                  posts = example_posts, notifications = [], notification_seq = 1,
                  tasks = []\<rparr>"

text \<open>A codec for the payloads of the examples, and a sequence of calls.\<close>

definition example_dumps :: "json \<Rightarrow> string" where
  "example_dumps v =
     (case v of
        JInt i \<Rightarrow> (if i = 0 then ''0'' else if i = 1 then ''1'' else if i = 2 then ''2'' else ''100'')
      | JDict _ \<Rightarrow> ''{...}''
      | _ \<Rightarrow> ''null'')"

definition example_loads :: "string \<Rightarrow> json" where
  "example_loads s =
     (if s = ''0'' then JInt 0 else if s = ''1'' then JInt 1 else if s = ''2'' then JInt 2
      else JInt 100)"

definition example_calls :: "(real \<times> user \<times> string \<times> json) list" where
  "example_calls =
     [(5, alice, ''unread_message_count'', JInt 1),
      (6, bob, ''unread_message_count'', JInt 1),
      (7, alice, ''task_progress'', JInt 0),
      (9, alice, ''unread_message_count'', JInt 2)]"

definition example_feed :: db where
  "example_feed = add_notifications example_dumps example_db example_calls"

text \<open>dave holds an API token that expires five seconds after the epoch.\<close>

definition dave :: user where
  "dave = \<lparr>uid = 4, username = ''dave'', email = ''dave@example.com'',
            token = Some ''0123456789abcdef0123456789abcdef'', token_expiration = Some 5000000\<rparr>"

definition token_db :: db where
  "token_db = example_db\<lparr>users := [alice, dave]\<rparr>"

text \<open>
  An engine that cannot be reached, an engine that holds the documents of posts 1 and 3 and
  answers every query with three hits, and a session about to commit.
\<close>

definition down_engine :: elasticsearch where
  "down_engine = \<lparr>reachable = False, documents = Map.empty, answer = (\<lambda>index query offset limit. ([], 0))\<rparr>"

definition example_session :: session where
  "example_session =
     \<lparr>new = [PostE (example_posts ! 3), UserE carol],
      dirty = [PostE (example_posts ! 0), UserE alice],
      deleted = [PostE (example_posts ! 2)],
      session_changes = None\<rparr>"

definition example_engine :: elasticsearch where
  "example_engine =
     \<lparr>reachable = True,
      documents = [(''post'', JInt 1) \<mapsto> [(''body'', JStr ''hullo'')],
                   (''post'', JInt 3) \<mapsto> [(''body'', JStr ''other'')]],
      answer = (\<lambda>index query offset limit.
                  if offset = 0 then ([3, 7, 1], 3) else ([], 3))\<rparr>"


text \<open>A worker running job-1, the export of bob's posts.\<close>

definition example_task :: task where
  "example_task = \<lparr>task_id = ''job-1'', task_name = ''export_posts'',
                    description = Some ''Exporting posts...'', task_user_id = 2,
                    complete = False\<rparr>"

definition example_job :: rq_job where
  "example_job = \<lparr>job_id = ''job-1'', meta = Map.empty\<rparr>"

definition example_world :: world where
  "example_world =
     \<lparr>store = example_db\<lparr>tasks := [example_task]\<rparr>, current_job = Some example_job,
      logged = [], clock = 1000, outbox = []\<rparr>"

section \<open>Properties and claims\<close>

subsection \<open>Social graph\<close>

lemma in_following_select:
  "u \<in> set (following_select d self) \<longleftrightarrow>
     u \<in> set (users d) \<and> (uid self, uid u) \<in> set (followers d)"
  by (auto simp: following_select_def)

lemma in_followers_select:
  "u \<in> set (followers_select d self) \<longleftrightarrow>
     u \<in> set (users d) \<and> (uid u, uid self) \<in> set (followers d)"
  by (auto simp: followers_select_def)

lemma is_following_iff:
  "is_following d self usr \<longleftrightarrow>
     uid usr \<in> uid ` set (users d) \<and> (uid self, uid usr) \<in> set (followers d)"
proof -
  have "is_following d self usr \<longleftrightarrow>
          (\<exists>u \<in> set (following_select d self). uid u = uid usr)"
    by (simp add: is_following_def filter_empty_conv)
  also have "\<dots> \<longleftrightarrow>
          (\<exists>u \<in> set (users d). uid u = uid usr \<and> (uid self, uid usr) \<in> set (followers d))"
    by (metis in_following_select)
  also have "\<dots> \<longleftrightarrow>
          uid usr \<in> uid ` set (users d) \<and> (uid self, uid usr) \<in> set (followers d)"
    by (metis (no_types, lifting) image_iff)
  finally show ?thesis .
qed

lemma is_following_follow:
  "uid usr \<in> uid ` set (users d) \<Longrightarrow> is_following (follow d self usr) self usr"
  by (auto simp: follow_def is_following_iff)

lemma not_is_following_unfollow: "\<not> is_following (unfollow d self usr) self usr"
  by (auto simp: unfollow_def is_following_iff)

lemma users_follow: "users (follow d self usr) = users d"
  by (simp add: follow_def)

lemma follow_twice:
  "uid usr \<in> uid ` set (users d) \<Longrightarrow> follow (follow d self usr) self usr = follow d self usr"
  using is_following_follow [of usr d self] by (simp add: follow_def)

lemma unfollow_twice: "unfollow (unfollow d self usr) self usr = unfollow d self usr"
  using not_is_following_unfollow [of d self usr] by (simp add: unfollow_def)

lemma follow_repeat:
  "uid usr \<in> uid ` set (users d) \<Longrightarrow>
     ((\<lambda>s. follow s self usr) ^^ Suc n) d = follow d self usr"
  by (induction n) (simp_all add: follow_twice)

lemma unfollow_repeat: "((\<lambda>s. unfollow s self usr) ^^ Suc n) d = unfollow d self usr"
  by (induction n) (simp_all add: unfollow_twice)

text \<open>
  C7. For all accounts a and b, where b is an account of the store: after \<open>follow\<close> the
  check \<open>is_following\<close> is true, after \<open>unfollow\<close> it is false, and repeating \<open>follow\<close>
  (or \<open>unfollow\<close>) any number of times leaves the store, and with it the follower and
  following counts of every account, as performing it once does.
\<close>

theorem follow_unfollow_idempotent:
  assumes "uid b \<in> uid ` set (users d)"
  shows "is_following (follow d a b) a b
       \<and> \<not> is_following (unfollow d a b) a b
       \<and> ((\<lambda>s. follow s a b) ^^ Suc n) d = follow d a b
       \<and> ((\<lambda>s. unfollow s a b) ^^ Suc n) d = unfollow d a b
       \<and> followers_count (((\<lambda>s. follow s a b) ^^ Suc n) d) u = followers_count (follow d a b) u
       \<and> following_count (((\<lambda>s. follow s a b) ^^ Suc n) d) u = following_count (follow d a b) u
       \<and> followers_count (((\<lambda>s. unfollow s a b) ^^ Suc n) d) u = followers_count (unfollow d a b) u
       \<and> following_count (((\<lambda>s. unfollow s a b) ^^ Suc n) d) u = following_count (unfollow d a b) u"
  using assms
  by (simp only: follow_repeat unfollow_repeat is_following_follow not_is_following_unfollow
        simp_thms)

theorem follow_unfollow_idempotent_witness:
  "uid carol \<in> uid ` set (users example_db)
   \<and> \<not> is_following example_db bob carol
   \<and> is_following (follow example_db bob carol) bob carol
   \<and> \<not> is_following (unfollow (follow example_db bob carol) bob carol) bob carol
   \<and> ((\<lambda>s. follow s bob carol) ^^ Suc 2) example_db = follow example_db bob carol
   \<and> followers_count example_db carol = 0
   \<and> followers_count (((\<lambda>s. follow s bob carol) ^^ Suc 2) example_db) carol = 1"
proof -
  have h: "uid carol \<in> uid ` set (users example_db)"
    by (simp add: example_db_def)
  have e: "followers_count (follow example_db bob carol) carol = 1"
    "followers_count example_db carol = 0"
    "\<not> is_following example_db bob carol"
    by (simp_all add: followers_count_def followers_select_def follow_def is_following_def
          following_select_def example_db_def alice_def bob_def carol_def)
  show ?thesis
    using h e follow_unfollow_idempotent [OF h, of bob 2 carol]
      follow_unfollow_idempotent [of carol "follow example_db bob carol" bob 0 carol]
    by (simp add: users_follow)
qed

subsection \<open>Timeline\<close>

lemma set_author_followers:
  "set (author_followers d author) =
     (if followers_select d author = [] then {None} else Some ` set (followers_select d author))"
  by (cases "followers_select d author") (simp_all add: author_followers_def)

lemma sorted_order_by_desc:
  "sorted_wrt (\<lambda>a b. key a \<ge> key b) (order_by_desc key rows)"
proof -
  have "sorted (map (\<lambda>r. - key r) (order_by_desc key rows))"
    by (simp add: order_by_desc_def)
  then show ?thesis
    by (simp add: sorted_map)
qed

lemma set_order_by_desc: "set (order_by_desc key rows) = set rows"
  by (simp add: order_by_desc_def)

lemma distinct_order_by_desc_group_by: "distinct (order_by_desc key (group_by rows))"
  by (simp add: order_by_desc_def group_by_def)

lemma in_following_posts:
  "p \<in> set (following_posts d self) \<longleftrightarrow>
     p \<in> set (posts d) \<and>
     (\<exists>author \<in> set (users d). uid author = post_user_id p \<and>
        (uid author = uid self \<or>
         (\<exists>f \<in> set (users d). uid f = uid self \<and> (uid f, uid author) \<in> set (followers d))))"
  (is "?L \<longleftrightarrow> ?R")
proof
  assume ?L
  then show ?R
    by (auto simp: following_posts_def set_order_by_desc group_by_def set_author_followers
          in_followers_select split: if_splits)
next
  assume r: ?R
  then obtain author where a: "p \<in> set (posts d)" "author \<in> set (users d)"
      "uid author = post_user_id p"
      and c: "uid author = uid self \<or>
         (\<exists>f \<in> set (users d). uid f = uid self \<and> (uid f, uid author) \<in> set (followers d))"
    by blast
  have "\<exists>follower \<in> set (author_followers d author).
          map_option uid follower = Some (uid self) \<or> uid author = uid self"
  proof (cases "uid author = uid self")
    case True
    have "author_followers d author \<noteq> []"
      by (simp add: author_followers_def split: list.splits)
    then obtain x where "x \<in> set (author_followers d author)"
      by (cases "author_followers d author") auto
    with True show ?thesis by blast
  next
    case False
    with c obtain f where f: "f \<in> set (users d)" "uid f = uid self"
        "(uid f, uid author) \<in> set (followers d)"
      by blast
    then have "f \<in> set (followers_select d author)"
      by (simp add: in_followers_select)
    then have "Some f \<in> set (author_followers d author)"
      by (auto simp: set_author_followers)
    with f show ?thesis
      by (intro bexI [of _ "Some f"]) simp_all
  qed
  then obtain follower where fo: "follower \<in> set (author_followers d author)"
      "map_option uid follower = Some (uid self) \<or> uid author = uid self"
    by blast
  have "(p, author, follower) \<in>
          set [(p, author, follower).
                      p \<leftarrow> posts d,
                      author \<leftarrow> users d, uid author = post_user_id p,
                      follower \<leftarrow> author_followers d author]"
    using a fo by auto
  with fo show ?L
    by (force simp: following_posts_def set_order_by_desc group_by_def Let_def)
qed

text \<open>
  C1. For every account \<open>self\<close> of the store, where every post's author is a row of the
  user table (the foreign key of \<open>post.user_id\<close>): \<open>following_posts\<close> returns exactly the
  posts whose author is \<open>self\<close> or an account \<open>self\<close> follows, every post of \<open>self\<close> among
  them, no post twice, latest timestamp first.
\<close>

theorem following_posts_timeline:
  assumes "self \<in> set (users d)"
    and "\<forall>p \<in> set (posts d). post_user_id p \<in> uid ` set (users d)"
  shows "set (following_posts d self) =
           {p \<in> set (posts d). post_user_id p = uid self \<or>
                                 (uid self, post_user_id p) \<in> set (followers d)}
       \<and> (\<forall>p \<in> set (posts d). post_user_id p = uid self \<longrightarrow> p \<in> set (following_posts d self))
       \<and> distinct (following_posts d self)
       \<and> sorted_wrt (\<lambda>p q. post_timestamp p \<ge> post_timestamp q) (following_posts d self)"
proof -
  have m: "p \<in> set (following_posts d self) \<longleftrightarrow>
             p \<in> set (posts d) \<and>
             (post_user_id p = uid self \<or> (uid self, post_user_id p) \<in> set (followers d))" for p
  proof (cases "p \<in> set (posts d)")
    case False
    then show ?thesis by (simp add: in_following_posts)
  next
    case True
    with assms(2) obtain author where au: "author \<in> set (users d)" "uid author = post_user_id p"
      by force
    show ?thesis
    proof
      assume "p \<in> set (following_posts d self)"
      then show "p \<in> set (posts d) \<and>
             (post_user_id p = uid self \<or> (uid self, post_user_id p) \<in> set (followers d))"
        by (auto simp: in_following_posts)
    next
      assume "p \<in> set (posts d) \<and>
             (post_user_id p = uid self \<or> (uid self, post_user_id p) \<in> set (followers d))"
      with au assms(1) show "p \<in> set (following_posts d self)"
        unfolding in_following_posts by (metis)
    qed
  qed
  have "distinct (following_posts d self)"
    by (simp add: following_posts_def Let_def distinct_order_by_desc_group_by)
  moreover have "sorted_wrt (\<lambda>p q. post_timestamp p \<ge> post_timestamp q) (following_posts d self)"
    by (simp add: following_posts_def Let_def sorted_order_by_desc)
  ultimately show ?thesis
    using m by blast
qed


theorem following_posts_timeline_witness:
  "alice \<in> set (users example_db)
   \<and> post_user_id ` set (posts example_db) \<subseteq> uid ` set (users example_db)
   \<and> following_posts example_db alice = [example_posts ! 3, example_posts ! 1, example_posts ! 0]
   \<and> set (following_posts example_db alice) =
         {p \<in> set (posts example_db). post_user_id p = uid alice \<or>
                                 (uid alice, post_user_id p) \<in> set (followers example_db)}
   \<and> distinct (following_posts example_db alice)"
proof -
  have h1: "alice \<in> set (users example_db)"
    by (simp add: example_db_def)
  have h2: "\<forall>p \<in> set (posts example_db). post_user_id p \<in> uid ` set (users example_db)"
    by (simp add: example_db_def example_posts_def alice_def bob_def carol_def)
  have v: "following_posts example_db alice =
             [example_posts ! 3, example_posts ! 1, example_posts ! 0]"
    by (simp add: following_posts_def author_followers_def followers_select_def group_by_def
          order_by_desc_def example_db_def example_posts_def alice_def bob_def carol_def)
  from h2 have h2': "post_user_id ` set (posts example_db) \<subseteq> uid ` set (users example_db)"
    by blast
  show ?thesis
    using h1 h2' v following_posts_timeline [OF h1 h2] by simp
qed

subsection \<open>Notifications\<close>

lemma live_add_notification:
  "live (fst (add_notification dumps now d self nm data)) account m =
     (if account = uid self \<and> m = nm then [snd (add_notification dumps now d self nm data)]
      else live d account m)"
  by (auto simp: live_def add_notification_def Let_def filter_empty_conv intro: filter_cong)

lemma snd_add_notification:
  "snd (add_notification dumps now d self nm data) =
     \<lparr>notification_id = notification_seq d, name = nm, notification_user_id = uid self,
      timestamp = now, payload_json = dumps data\<rparr>"
  by (simp add: add_notification_def Let_def)

lemma at_most_one_add_notification:
  "(\<forall>account m. length (live d account m) \<le> 1) \<Longrightarrow>
     length (live (fst (add_notification dumps now d self nm data)) account m) \<le> 1"
  by (simp add: live_add_notification)

lemma at_most_one_add_notifications:
  "(\<forall>account m. length (live d account m) \<le> 1) \<Longrightarrow>
     length (live (add_notifications dumps d calls) account m) \<le> 1"
proof (induction calls arbitrary: d)
  case Nil
  then show ?case by simp
next
  case (Cons c calls)
  obtain now self nm data where c: "c = (now, self, nm, data)"
    by (cases c) auto
  have "\<forall>account m. length (live (fst (add_notification dumps now d self nm data)) account m) \<le> 1"
    using Cons.prems by (simp add: live_add_notification)
  from Cons.IH [OF this] show ?case
    by (simp add: c)
qed

lemma live_empty_db: "live empty_db account m = []"
  by (simp add: live_def empty_db_def)

text \<open>
  C2. For every account \<open>self\<close>, name \<open>nm\<close> and payloads \<open>v1\<close> then \<open>v2\<close>:
  \<open>add_notification\<close> with \<open>v1\<close> followed by \<open>add_notification\<close> with \<open>v2\<close> leaves exactly
  one notification named \<open>nm\<close> for \<open>self\<close>, the one the second call returns; its payload
  is \<open>dumps v2\<close>, which decodes to \<open>v2\<close> wherever \<open>loads\<close> inverts \<open>dumps\<close>. After any
  sequence of calls, from the empty store or from any store with at most one
  notification per (account, name), there is at most one per (account, name).
\<close>

theorem add_notification_coalesces:
  "live (fst (add_notification dumps t2 (fst (add_notification dumps t1 d self nm v1)) self nm v2))
       (uid self) nm =
     [snd (add_notification dumps t2 (fst (add_notification dumps t1 d self nm v1)) self nm v2)]
   \<and> payload_json
        (snd (add_notification dumps t2 (fst (add_notification dumps t1 d self nm v1)) self nm v2))
       = dumps v2
   \<and> (loads (dumps v2) = v2 \<longrightarrow>
        get_data loads
          (snd (add_notification dumps t2 (fst (add_notification dumps t1 d self nm v1)) self nm v2))
        = v2)
   \<and> length (live (add_notifications dumps empty_db calls) account m) \<le> 1
   \<and> ((\<forall>a k. length (live d a k) \<le> 1) \<longrightarrow>
        length (live (add_notifications dumps d calls) account m) \<le> 1)"
proof -
  have "length (live (add_notifications dumps empty_db calls) account m) \<le> 1"
    by (rule at_most_one_add_notifications) (simp add: live_empty_db)
  moreover have "(\<forall>a k. length (live d a k) \<le> 1) \<longrightarrow>
        length (live (add_notifications dumps d calls) account m) \<le> 1"
    using at_most_one_add_notifications [of d dumps calls account m] by blast
  ultimately show ?thesis
    by (simp add: live_add_notification snd_add_notification get_data_def)
qed

theorem add_notification_coalesces_witness:
  "example_loads (example_dumps (JInt 2)) = JInt 2
   \<and> live (fst (add_notification example_dumps 9
                 (fst (add_notification example_dumps 5 example_db alice ''unread_message_count'' (JInt 1)))
                 alice ''unread_message_count'' (JInt 2)))
        (uid alice) ''unread_message_count''
      = [\<lparr>notification_id = 2, name = ''unread_message_count'', notification_user_id = 1,
          timestamp = 9, payload_json = ''2''\<rparr>]
   \<and> get_data example_loads
        (snd (add_notification example_dumps 9
                 (fst (add_notification example_dumps 5 example_db alice ''unread_message_count'' (JInt 1)))
                 alice ''unread_message_count'' (JInt 2)))
      = JInt 2
   \<and> length (live example_db 1 ''unread_message_count'') \<le> 1
   \<and> length (live (add_notifications example_dumps example_db example_calls) 1 ''unread_message_count'') = 1"
proof -
  have h: "example_loads (example_dumps (JInt 2)) = JInt 2"
    by (simp add: example_loads_def example_dumps_def)
  have i: "\<forall>a k. length (live example_db a k) \<le> 1"
    by (simp add: live_def example_db_def)
  have v: "length (live (add_notifications example_dumps example_db example_calls) 1
             ''unread_message_count'') = 1"
    by (simp add: example_calls_def live_add_notification alice_def bob_def)
  have s: "snd (add_notification example_dumps 9
                 (fst (add_notification example_dumps 5 example_db alice ''unread_message_count'' (JInt 1)))
                 alice ''unread_message_count'' (JInt 2))
      = \<lparr>notification_id = 2, name = ''unread_message_count'', notification_user_id = 1,
          timestamp = 9, payload_json = ''2''\<rparr>"
    by (simp add: add_notification_def Let_def example_db_def alice_def example_dumps_def)
  note t = add_notification_coalesces [of example_dumps 9 5 example_db alice
      "''unread_message_count''" "JInt 1" "JInt 2" example_loads example_calls 1
      "''unread_message_count''", unfolded s]
  from t h have g: "get_data example_loads
      \<lparr>notification_id = 2, name = ''unread_message_count'', notification_user_id = 1,
        timestamp = 9, payload_json = ''2''\<rparr> = JInt 2"
    by blast
  from t have l: "live (fst (add_notification example_dumps 9
                 (fst (add_notification example_dumps 5 example_db alice ''unread_message_count'' (JInt 1)))
                 alice ''unread_message_count'' (JInt 2)))
        (uid alice) ''unread_message_count''
      = [\<lparr>notification_id = 2, name = ''unread_message_count'', notification_user_id = 1,
          timestamp = 9, payload_json = ''2''\<rparr>]"
    by blast
  from i have i': "length (live example_db 1 ''unread_message_count'') \<le> 1"
    by blast
  show ?thesis
    unfolding s using h l g i' v by blast
qed

text \<open>
  C10. \<open>add_notification\<close> for \<open>self\<close> and \<open>nm\<close> leaves the notifications of every other
  account, and those of \<open>self\<close> under every other name, as they were: the rows that do
  not belong to (\<open>self\<close>, \<open>nm\<close>) are the same before and after, in the same order. The
  user and task tables are untouched.
\<close>

theorem add_notification_frame:
  "filter (\<lambda>x. \<not> (notification_user_id x = uid self \<and> name x = nm))
      (notifications (fst (add_notification dumps now d self nm data)))
   = filter (\<lambda>x. \<not> (notification_user_id x = uid self \<and> name x = nm)) (notifications d)
   \<and> users (fst (add_notification dumps now d self nm data)) = users d
   \<and> tasks (fst (add_notification dumps now d self nm data)) = tasks d"
  by (simp add: add_notification_def Let_def)


lemma mset_notifications_query:
  "mset (notifications_query d u t) =
     filter_mset (\<lambda>n. notification_user_id n = uid u \<and> timestamp n > t) (mset (notifications d))"
  by (simp add: notifications_query_def)

lemma notifications_query_mono:
  assumes "t' \<le> t"
  shows "mset (notifications_query d u t) \<subseteq># mset (notifications_query d u t')"
  unfolding mset_notifications_query
  using assms by (intro filter_mset_mono_strong) auto

lemma notifications_query_empty:
  assumes "\<forall>n \<in> set (notifications d). notification_user_id n = uid u \<longrightarrow> timestamp n \<le> t"
  shows "notifications_query d u t = []"
proof -
  have "filter (\<lambda>n. notification_user_id n = uid u \<and> timestamp n > t) (notifications d) = []"
    using assms by (auto simp: filter_empty_conv)
  then show ?thesis
    by (simp add: notifications_query_def)
qed

text \<open>
  C8. For every account \<open>u\<close> and threshold \<open>t\<close>, the notifications query returns exactly
  the notifications of \<open>u\<close> with a timestamp strictly greater than \<open>t\<close>, in ascending
  order of timestamp, and the route returns one entry for each; so the result for a
  smaller threshold \<open>t'\<close> contains the result for \<open>t\<close> and is at least as long, and the
  result is empty when no notification of \<open>u\<close> is later than \<open>t\<close>.
\<close>

theorem notifications_since:
  "mset (notifications_query d u t) =
     filter_mset (\<lambda>n. notification_user_id n = uid u \<and> timestamp n > t) (mset (notifications d))
   \<and> sorted (map timestamp (notifications_query d u t))
   \<and> notifications_view loads d u t =
       map (\<lambda>n. (name n, get_data loads n, timestamp n)) (notifications_query d u t)
   \<and> (t' \<le> t \<longrightarrow>
        mset (notifications_query d u t) \<subseteq># mset (notifications_query d u t')
        \<and> length (notifications_view loads d u t) \<le> length (notifications_view loads d u t'))
   \<and> ((\<forall>n \<in> set (notifications d). notification_user_id n = uid u \<longrightarrow> timestamp n \<le> t) \<longrightarrow>
        notifications_view loads d u t = [])"
proof -
  have "sorted (map timestamp (notifications_query d u t))"
    by (simp add: notifications_query_def)
  moreover have "length (notifications_view loads d u t) \<le> length (notifications_view loads d u t')"
    if "t' \<le> t"
  proof -
    have "size (mset (notifications_query d u t)) \<le> size (mset (notifications_query d u t'))"
      by (rule size_mset_mono) (rule notifications_query_mono [OF that])
    then show ?thesis
      by (simp add: notifications_view_def)
  qed
  ultimately show ?thesis
    by (simp add: mset_notifications_query [symmetric] notifications_query_mono
          notifications_query_empty notifications_view_def)
qed

theorem notifications_since_witness:
  "(6::real) \<le> 7
   \<and> notifications_view example_loads example_feed alice 6 =
       [(''task_progress'', JInt 0, 7), (''unread_message_count'', JInt 2, 9)]
   \<and> notifications_view example_loads example_feed alice 7 = [(''unread_message_count'', JInt 2, 9)]
   \<and> length (notifications_view example_loads example_feed alice 7)
       \<le> length (notifications_view example_loads example_feed alice 6)
   \<and> list_all (\<lambda>n. notification_user_id n = uid alice \<longrightarrow> timestamp n \<le> 9) (notifications example_feed)
   \<and> notifications_view example_loads example_feed alice 9 = []"
proof -
  have n: "notifications example_feed =
      [\<lparr>notification_id = 2, name = ''unread_message_count'', notification_user_id = 2,
         timestamp = 6, payload_json = ''1''\<rparr>,
       \<lparr>notification_id = 3, name = ''task_progress'', notification_user_id = 1,
         timestamp = 7, payload_json = ''0''\<rparr>,
       \<lparr>notification_id = 4, name = ''unread_message_count'', notification_user_id = 1,
         timestamp = 9, payload_json = ''2''\<rparr>]"
    by (simp add: example_feed_def example_calls_def add_notification_def Let_def example_db_def
          alice_def bob_def example_dumps_def)
  have v: "notifications_view example_loads example_feed alice 6 =
       [(''task_progress'', JInt 0, 7), (''unread_message_count'', JInt 2, 9)]"
    "notifications_view example_loads example_feed alice 7 = [(''unread_message_count'', JInt 2, 9)]"
    by (simp_all add: notifications_view_def notifications_query_def n alice_def get_data_def
          example_loads_def)
  have h: "\<forall>n \<in> set (notifications example_feed).
             notification_user_id n = uid alice \<longrightarrow> timestamp n \<le> 9"
    by (simp add: n alice_def)
  then have h': "list_all (\<lambda>n. notification_user_id n = uid alice \<longrightarrow> timestamp n \<le> 9)
                   (notifications example_feed)"
    by (simp add: list_all_iff)
  note t = notifications_since [of example_feed alice 7 example_loads 6]
  note e = notifications_since [of example_feed alice 9 example_loads 9]
  from e h have "notifications_view example_loads example_feed alice 9 = []"
    by blast
  moreover from t have "length (notifications_view example_loads example_feed alice 7)
       \<le> length (notifications_view example_loads example_feed alice 6)"
    by linarith
  ultimately show ?thesis
    using v h' by simp
qed

subsection \<open>Tokens\<close>

lemma find_uid:
  assumes "usr \<in> set us" "distinct (map uid us)"
  shows "find (\<lambda>u. uid u = uid usr) us = Some usr"
  using assms
proof (induction us)
  case Nil
  then show ?case by simp
next
  case (Cons a us)
  show ?case
  proof (cases "usr = a")
    case True
    then show ?thesis by simp
  next
    case False
    with Cons.prems have in_tl: "usr \<in> set us" and d: "distinct (map uid us)"
      and "uid a \<notin> uid ` set us"
      by simp_all
    then have "uid a \<noteq> uid usr"
      by (metis imageI)
    with Cons.IH [OF in_tl d] show ?thesis
      by simp
  qed
qed

lemma find_token_unique:
  assumes "usr \<in> set us" "token usr = Some tok"
    and "\<forall>u \<in> set us. token u = Some tok \<longrightarrow> u = usr"
  shows "find (\<lambda>u. token u = Some tok) us = Some usr"
  using assms
proof (induction us)
  case Nil
  then show ?case by simp
next
  case (Cons a us)
  show ?case
  proof (cases "token a = Some tok")
    case True
    with Cons.prems(3) have "a = usr"
      by (metis list.set_intros(1))
    with True show ?thesis
      by simp
  next
    case False
    with Cons.prems(1,2) have in_tl: "usr \<in> set us"
      by (metis set_ConsD)
    from Cons.prems(3) have "\<forall>u \<in> set us. token u = Some tok \<longrightarrow> u = usr"
      by (metis list.set_intros(2))
    from Cons.IH [OF in_tl Cons.prems(2) this] False show ?thesis
      by simp
  qed
qed


lemma verify_reset_password_token_issued:
  assumes "self \<in> set (users d)" "distinct (map uid (users d))"
    and "0 \<le> t0 + expires_in" "now < of_int \<lfloor>t0 + expires_in\<rfloor>"
  shows "verify_reset_password_token secret_key now d
           (get_reset_password_token secret_key t0 self expires_in) = Some self"
proof -
  have v: "validate_exp now [(''reset_password'', JInt (uid self)), (''exp'', JFloat (t0 + expires_in))]
             = None"
    using assms(3,4) by (simp add: validate_exp_def)
  have "jwt_decode now (get_reset_password_token secret_key t0 self expires_in) secret_key [''HS256'']
          = Inr [(''reset_password'', JInt (uid self)), (''exp'', JFloat (t0 + expires_in))]"
    by (simp add: get_reset_password_token_def jwt_encode_def jwt_decode_def v)
  then show ?thesis
    using find_uid [OF assms(1,2)] by (simp add: verify_reset_password_token_def)
qed

lemma verify_reset_password_token_expired:
  assumes "0 \<le> t0 + expires_in" "of_int \<lfloor>t0 + expires_in\<rfloor> \<le> now"
  shows "verify_reset_password_token secret_key now d
           (get_reset_password_token secret_key t0 self expires_in) = None"
proof -
  have v: "validate_exp now [(''reset_password'', JInt (uid self)), (''exp'', JFloat (t0 + expires_in))]
             = Some ExpiredSignatureError"
    using assms by (simp add: validate_exp_def)
  have "jwt_decode now (get_reset_password_token secret_key t0 self expires_in) secret_key [''HS256'']
          = Inl ExpiredSignatureError"
    by (simp add: get_reset_password_token_def jwt_encode_def jwt_decode_def v)
  then show ?thesis
    by (simp add: verify_reset_password_token_def)
qed


lemma find_after_update:
  assumes "usr \<in> set us" "uid usr' = uid usr" "token usr' = Some tok"
    and "\<forall>u \<in> set us. token u = Some tok \<longrightarrow> uid u = uid usr"
  shows "find (\<lambda>u. token u = Some tok) (map (\<lambda>u. if uid u = uid usr' then usr' else u) us)
           = Some usr'"
proof -
  define f where "f = (\<lambda>u. if uid u = uid usr' then usr' else u)"
  have hit: "f usr = usr'"
    using assms(2) by (simp add: f_def)
  have other: "f v = usr' \<or> (f v = v \<and> uid v \<noteq> uid usr)" for v
    using assms(2) by (simp add: f_def)
  have "find (\<lambda>u. token u = Some tok) (map f us) = Some usr'"
  proof (rule find_token_unique)
    from assms(1) have "f usr \<in> f ` set us"
      by (rule imageI)
    then show "usr' \<in> set (map f us)"
      by (simp only: hit set_map)
    show "token usr' = Some tok"
      by (rule assms(3))
    show "\<forall>u \<in> set (map f us). token u = Some tok \<longrightarrow> u = usr'"
    proof (intro ballI impI)
      fix u assume u: "u \<in> set (map f us)" and t: "token u = Some tok"
      from u have "u \<in> f ` set us"
        by (simp only: set_map)
      then obtain v where v: "v \<in> set us" "u = f v"
        by (rule imageE)
      from other [of v] show "u = usr'"
      proof
        assume "f v = usr'"
        with v(2) show ?thesis by (simp only:)
      next
        assume a: "f v = v \<and> uid v \<noteq> uid usr"
        with v(2) have "u = v" by (simp only:)
        with t have "token v = Some tok" by (simp only:)
        with assms(4) v(1) have "uid v = uid usr" by blast
        with a show ?thesis by blast
      qed
    qed
  qed
  then show ?thesis
    by (simp only: f_def)
qed

lemma check_token_revoked:
  assumes "usr \<in> set (users d)" "token usr = Some tok"
    and "\<forall>u \<in> set (users d). token u = Some tok \<longrightarrow> uid u = uid usr"
    and "t0 \<le> now"
  shows "check_token now (revoke_token t0 d usr) tok = Inr None"
proof -
  define usr' where "usr' = usr\<lparr>token_expiration := Some (t0 - timedelta 1)\<rparr>"
  have p: "uid usr' = uid usr" "token usr' = Some tok"
    "token_expiration usr' = Some (t0 - timedelta 1)"
    using assms(2) by (simp_all add: usr'_def)
  have u: "users (revoke_token t0 d usr) =
             map (\<lambda>u. if uid u = uid usr' then usr' else u) (users d)"
    by (simp add: revoke_token_def update_user_def usr'_def)
  have f: "find (\<lambda>u. token u = Some tok) (users (revoke_token t0 d usr)) = Some usr'"
    unfolding u by (rule find_after_update [OF assms(1) p(1,2) assms(3)])
  have "t0 - timedelta 1 < now"
    using assms(4) by (simp add: timedelta_def)
  then show ?thesis
    by (simp add: check_token_def f p(3))
qed

lemma check_token_issued:
  assumes "usr \<in> set (users d)" "token usr = None"
    and "\<forall>u \<in> set (users d). token u \<noteq> Some fresh"
    and "now' \<le> now + timedelta expires_in"
  shows "\<exists>d'. get_token fresh now d usr expires_in = Inr (d', fresh)
           \<and> check_token now' d' fresh =
               Inr (Some (usr\<lparr>token := Some fresh,
                               token_expiration := Some (now + timedelta expires_in)\<rparr>))"
proof -
  define usr' where
    "usr' = usr\<lparr>token := Some fresh, token_expiration := Some (now + timedelta expires_in)\<rparr>"
  have p: "uid usr' = uid usr" "token usr' = Some fresh"
    "token_expiration usr' = Some (now + timedelta expires_in)"
    by (simp_all add: usr'_def)
  have g: "get_token fresh now d usr expires_in = Inr (update_user d usr', fresh)"
    using assms(2) by (simp add: get_token_def Let_def usr'_def)
  have u: "users (update_user d usr') = map (\<lambda>u. if uid u = uid usr' then usr' else u) (users d)"
    by (simp add: update_user_def)
  have "\<forall>u \<in> set (users d). token u = Some fresh \<longrightarrow> uid u = uid usr"
    using assms(3) by metis
  from find_after_update [OF assms(1) p(1,2) this]
  have f: "find (\<lambda>u. token u = Some fresh) (users (update_user d usr')) = Some usr'"
    unfolding u .
  have "check_token now' (update_user d usr') fresh = Inr (Some usr')"
    using assms(4) by (simp add: check_token_def f p(3))
  with g show ?thesis
    unfolding usr'_def by blast
qed

lemma verify_reset_password_token_decode_error:
  "jwt_decode now tok secret_key [''HS256''] = Inl e \<Longrightarrow>
     verify_reset_password_token secret_key now d tok = None"
  by (simp add: verify_reset_password_token_def)

lemma check_token_no_holder:
  "(\<forall>u \<in> set (users d). token u \<noteq> Some tok) \<Longrightarrow> check_token now d tok = Inr None"
proof -
  assume "\<forall>u \<in> set (users d). token u \<noteq> Some tok"
  then have "find (\<lambda>u. token u = Some tok) (users d) = None"
    by (simp add: find_None_iff)
  then show ?thesis
    by (simp add: check_token_def)
qed

text \<open>
  C9. Verification of an invalid or expired token gives no account and does not raise.
  \<open>verify_reset_password_token\<close> returns \<open>None\<close> for a string that is no token, for a
  token signed with another key, for an expired reset token, and whenever decoding
  raises; a reset token issued for an account of the store and not yet expired gives
  that account. \<open>check_token\<close> returns \<open>None\<close> when no account holds the token, when the
  holder's expiry lies in the past, and at any time from \<open>revoke_token\<close> on; a token whose
  holder's expiry is not in the past gives the holder.
\<close>

theorem token_verification:
  "verify_reset_password_token secret_key t d (Garbage s) = None
   \<and> (key \<noteq> secret_key \<longrightarrow>
        verify_reset_password_token secret_key t d (Jwt alg key claims) = None)
   \<and> (0 \<le> t0 + expires_in \<and> of_int \<lfloor>t0 + expires_in\<rfloor> \<le> t \<longrightarrow>
        verify_reset_password_token secret_key t d
          (get_reset_password_token secret_key t0 usr expires_in) = None)
   \<and> (\<forall>e. jwt_decode t rtok secret_key [''HS256''] = Inl e \<longrightarrow>
        verify_reset_password_token secret_key t d rtok = None)
   \<and> (usr \<in> set (users d) \<and> distinct (map uid (users d)) \<and>
        0 \<le> t0 + expires_in \<and> t < of_int \<lfloor>t0 + expires_in\<rfloor> \<longrightarrow>
        verify_reset_password_token secret_key t d
          (get_reset_password_token secret_key t0 usr expires_in) = Some usr)
   \<and> ((\<forall>u \<in> set (users d). token u \<noteq> Some tok) \<longrightarrow> check_token now d tok = Inr None)
   \<and> (find (\<lambda>u. token u = Some tok) (users d) = Some holder \<and>
        token_expiration holder = Some expiry \<and> expiry < now \<longrightarrow>
        check_token now d tok = Inr None)
   \<and> (usr \<in> set (users d) \<and> token usr = Some tok \<and>
        (\<forall>u \<in> set (users d). token u = Some tok \<longrightarrow> uid u = uid usr) \<and> now0 \<le> now \<longrightarrow>
        check_token now (revoke_token now0 d usr) tok = Inr None)
   \<and> (find (\<lambda>u. token u = Some tok) (users d) = Some holder \<and>
        token_expiration holder = Some expiry \<and> now \<le> expiry \<longrightarrow>
        check_token now d tok = Inr (Some holder))"
proof -
  have "verify_reset_password_token secret_key t d (Garbage s) = None"
    by (simp add: verify_reset_password_token_def jwt_decode_def)
  moreover have "key \<noteq> secret_key \<longrightarrow>
        verify_reset_password_token secret_key t d (Jwt alg key claims) = None"
    by (simp add: verify_reset_password_token_def jwt_decode_def)
  moreover have "find (\<lambda>u. token u = Some tok) (users d) = Some holder \<and>
        token_expiration holder = Some expiry \<and> expiry < now \<longrightarrow>
        check_token now d tok = Inr None"
    by (simp add: check_token_def)
  moreover have "find (\<lambda>u. token u = Some tok) (users d) = Some holder \<and>
        token_expiration holder = Some expiry \<and> now \<le> expiry \<longrightarrow>
        check_token now d tok = Inr (Some holder)"
    by (simp add: check_token_def)
  ultimately show ?thesis
    using verify_reset_password_token_expired [of t0 expires_in t secret_key d usr]
      verify_reset_password_token_decode_error [of t rtok secret_key _ d]
      verify_reset_password_token_issued [of usr d t0 expires_in t secret_key]
      check_token_no_holder [of d tok now]
      check_token_revoked [of usr d tok now0 now]
    by (intro conjI impI allI) blast+
qed



theorem token_verification_witness:
  "verify_reset_password_token ''secret'' 100 token_db (Garbage ''not a token'') = None
   \<and> ''other'' \<noteq> ''secret''
   \<and> verify_reset_password_token ''secret'' 100 token_db
        (Jwt ''HS256'' ''other'' [(''reset_password'', JInt 4)]) = None
   \<and> (0::real) \<le> 50 + 600 \<and> real_of_int \<lfloor>50 + 600 :: real\<rfloor> \<le> 650
   \<and> verify_reset_password_token ''secret'' 650 token_db
        (get_reset_password_token ''secret'' 50 dave 600) = None
   \<and> dave \<in> set (users token_db) \<and> distinct (map uid (users token_db))
   \<and> (100::real) < real_of_int \<lfloor>50 + 600 :: real\<rfloor>
   \<and> verify_reset_password_token ''secret'' 100 token_db
        (get_reset_password_token ''secret'' 50 dave 600) = Some dave
   \<and> list_all (\<lambda>u. token u \<noteq> Some ''ffff'') (users token_db)
   \<and> check_token 4000000 token_db ''ffff'' = Inr None
   \<and> find (\<lambda>u. token u = Some ''0123456789abcdef0123456789abcdef'') (users token_db) = Some dave
   \<and> token_expiration dave = Some 5000000
   \<and> check_token 5000001 token_db ''0123456789abcdef0123456789abcdef'' = Inr None
   \<and> check_token 4000000 (revoke_token 3000000 token_db dave) ''0123456789abcdef0123456789abcdef''
        = Inr None
   \<and> check_token 5000000 token_db ''0123456789abcdef0123456789abcdef'' = Inr (Some dave)"
proof -
  let ?tok = "''0123456789abcdef0123456789abcdef''"
  have k: "''other'' \<noteq> ''secret''"
    by simp
  have x1: "(0::real) \<le> 50 + 600"
    by simp
  have x2: "real_of_int \<lfloor>50 + 600 :: real\<rfloor> \<le> 650"
    by simp
  have x3: "(100::real) < real_of_int \<lfloor>50 + 600 :: real\<rfloor>"
    by simp
  have m1: "dave \<in> set (users token_db)"
    by (simp add: token_db_def)
  have m2: "distinct (map uid (users token_db))"
    by (simp add: token_db_def alice_def dave_def)
  have n: "\<forall>u \<in> set (users token_db). token u \<noteq> Some ''ffff''"
    by (simp add: token_db_def alice_def dave_def)
  then have n': "list_all (\<lambda>u. token u \<noteq> Some ''ffff'') (users token_db)"
    by (simp only: list_all_iff)
  have f1: "find (\<lambda>u. token u = Some ?tok) (users token_db) = Some dave"
    by (simp add: token_db_def alice_def dave_def)
  have f2: "token_expiration dave = Some 5000000"
    by (simp add: dave_def)
  have f3: "token dave = Some ?tok"
    by (simp add: dave_def)
  have u: "\<forall>u \<in> set (users token_db). token u = Some ?tok \<longrightarrow> uid u = uid dave"
    by (simp add: token_db_def alice_def)
  have l1: "(3000000::int) \<le> 4000000" and l2: "(5000000::int) < 5000001"
    and l3: "(5000000::int) \<le> 5000000"
    by simp_all
  note a = token_verification [where secret_key = "''secret''" and t = 100 and d = token_db
      and s = "''not a token''" and key = "''other''" and alg = "''HS256''"
      and claims = "[(''reset_password'', JInt 4)]" and ?t0.0 = 50 and expires_in = 600
      and usr = dave and rtok = "Garbage ''not a token''" and tok = "''ffff''"
      and now = 4000000 and holder = dave and expiry = 5000000 and now0 = 3000000]
  note b = token_verification [where secret_key = "''secret''" and t = 650 and d = token_db
      and s = "''not a token''" and key = "''other''" and alg = "''HS256''"
      and claims = "[(''reset_password'', JInt 4)]" and ?t0.0 = 50 and expires_in = 600
      and usr = dave and rtok = "Garbage ''not a token''" and tok = ?tok
      and now = 5000001 and holder = dave and expiry = 5000000 and now0 = 3000000]
  note c = token_verification [where secret_key = "''secret''" and t = 650 and d = token_db
      and s = "''not a token''" and key = "''other''" and alg = "''HS256''"
      and claims = "[(''reset_password'', JInt 4)]" and ?t0.0 = 50 and expires_in = 600
      and usr = dave and rtok = "Garbage ''not a token''" and tok = ?tok
      and now = 4000000 and holder = dave and expiry = 5000000 and now0 = 3000000]
  note e = token_verification [where secret_key = "''secret''" and t = 650 and d = token_db
      and s = "''not a token''" and key = "''other''" and alg = "''HS256''"
      and claims = "[(''reset_password'', JInt 4)]" and ?t0.0 = 50 and expires_in = 600
      and usr = dave and rtok = "Garbage ''not a token''" and tok = ?tok
      and now = 5000000 and holder = dave and expiry = 5000000 and now0 = 3000000]
  have r1: "verify_reset_password_token ''secret'' 100 token_db (Garbage ''not a token'') = None"
    by (rule a [THEN conjunct1])
  have r2: "verify_reset_password_token ''secret'' 100 token_db
        (Jwt ''HS256'' ''other'' [(''reset_password'', JInt 4)]) = None"
    by (rule a [THEN conjunct2, THEN conjunct1, THEN mp, OF k])
  have r3: "verify_reset_password_token ''secret'' 650 token_db
        (get_reset_password_token ''secret'' 50 dave 600) = None"
    by (rule b [THEN conjunct2, THEN conjunct2, THEN conjunct1, THEN mp, OF conjI [OF x1 x2]])
  have r5: "verify_reset_password_token ''secret'' 100 token_db
        (get_reset_password_token ''secret'' 50 dave 600) = Some dave"
    by (rule a [THEN conjunct2, THEN conjunct2, THEN conjunct2, THEN conjunct2, THEN conjunct1,
          THEN mp, OF conjI [OF m1 conjI [OF m2 conjI [OF x1 x3]]]])
  have r6: "check_token 4000000 token_db ''ffff'' = Inr None"
    by (rule a [THEN conjunct2, THEN conjunct2, THEN conjunct2, THEN conjunct2, THEN conjunct2,
          THEN conjunct1, THEN mp, OF n])
  have r7: "check_token 5000001 token_db ?tok = Inr None"
    by (rule b [THEN conjunct2, THEN conjunct2, THEN conjunct2, THEN conjunct2, THEN conjunct2,
          THEN conjunct2, THEN conjunct1, THEN mp, OF conjI [OF f1 conjI [OF f2 l2]]])
  have r8: "check_token 4000000 (revoke_token 3000000 token_db dave) ?tok = Inr None"
    by (rule c [THEN conjunct2, THEN conjunct2, THEN conjunct2, THEN conjunct2, THEN conjunct2,
          THEN conjunct2, THEN conjunct2, THEN conjunct1, THEN mp,
          OF conjI [OF m1 conjI [OF f3 conjI [OF u l1]]]])
  have r9: "check_token 5000000 token_db ?tok = Inr (Some dave)"
    by (rule e [THEN conjunct2, THEN conjunct2, THEN conjunct2, THEN conjunct2, THEN conjunct2,
          THEN conjunct2, THEN conjunct2, THEN conjunct2, THEN mp,
          OF conjI [OF f1 conjI [OF f2 l3]]])
  show ?thesis
    by (intro conjI) (rule r1 k r2 x1 x2 r3 m1 m2 x3 r5 n' r6 f1 f2 r7 r8 r9)+
qed

subsection \<open>Search index\<close>

lemma add_loop_unconfigured: "add_loop None objs = (None, None)"
  by (induction objs) (simp_all add: add_to_index_def)

lemma remove_loop_unconfigured: "remove_loop None objs = (None, None)"
  by (induction objs) (simp_all add: remove_from_index_def)

text \<open>
  C5, as amended. When no search engine is configured (\<open>current_app.elasticsearch\<close> is
  \<open>None\<close>), \<open>add_to_index\<close> and \<open>remove_from_index\<close> do nothing, \<open>query_index\<close> and
  \<open>search\<close> return an empty hit list with total count 0, and \<open>after_commit\<close> only clears
  the snapshot; none of them raises.
\<close>

theorem search_unconfigured_noop:
  "add_to_index None index model = Inr None
   \<and> remove_from_index None index model = Inr None
   \<and> query_index None index expression page per_page = Inr ([], 0)
   \<and> search None d expression page per_page = Inr ([], 0)
   \<and> after_commit None (before_commit s) = ((None, s\<lparr>session_changes := None\<rparr>), None)"
  by (simp add: add_to_index_def remove_from_index_def query_index_def search_def
        after_commit_def before_commit_def add_loop_unconfigured remove_loop_unconfigured)

text \<open>
  C5 as stated fails for an engine that is configured and cannot be reached: the guard
  tests the client object only, and the client's exception leaves every operation.
\<close>

theorem search_unavailable_counterexample:
  "add_to_index (Some down_engine) ''post'' (PostE (example_posts ! 0)) = Inl ConnectionError
   \<and> remove_from_index (Some down_engine) ''post'' (PostE (example_posts ! 0)) = Inl ConnectionError
   \<and> search (Some down_engine) example_db ''hello'' 1 25 = Inl ConnectionError
   \<and> snd (after_commit (Some down_engine) (before_commit example_session)) = Some ConnectionError"
  by (simp add: add_to_index_def remove_from_index_def query_index_def search_def
        after_commit_def before_commit_def es_index_def es_delete_def es_search_def
        down_engine_def example_session_def example_posts_def)















subsection \<open>Search results\<close>

lemma map_fst_whens_of: "map fst (whens_of ids) = ids"
  by (simp add: whens_of_def comp_def map_nth)

lemma sql_case_whens_of:
  assumes "distinct ids"
  shows "map (sql_case (whens_of ids)) ids = map (\<lambda>i. Some (int i)) [0 ..< length ids]"
proof (rule nth_equalityI)
  show "length (map (sql_case (whens_of ids)) ids) = length (map (\<lambda>i. Some (int i)) [0 ..< length ids])"
    by simp
next
  fix i assume "i < length (map (sql_case (whens_of ids)) ids)"
  then have i: "i < length ids"
    by simp
  have d: "distinct (map fst (whens_of ids))"
    using assms by (simp only: map_fst_whens_of)
  have "(ids ! i, int i) \<in> set (whens_of ids)"
    using i by (auto simp: whens_of_def)
  then have "map_of (whens_of ids) (ids ! i) = Some (int i)"
    using d by (simp add: map_of_eq_Some_iff)
  then show "map (sql_case (whens_of ids)) ids ! i = map (\<lambda>i. Some (int i)) [0 ..< length ids] ! i"
    using i by (simp add: sql_case_def)
qed

lemma sorted_positions: "sorted (map (\<lambda>i. Some (int i)) [0 ..< n])"
proof -
  have "sorted_wrt (\<lambda>x y. Some (int x) \<le> Some (int y)) [0 ..< n]"
    by (rule sorted_wrt_mono_rel [where P = "(\<le>)"]) simp_all
  then show ?thesis
    by (simp only: sorted_map)
qed

lemma distinct_positions: "distinct (map (\<lambda>i. Some (int i)) [0 ..< n])"
  by (simp add: distinct_map inj_on_def)

lemma search_order:
  assumes "distinct ids" "distinct (map post_id table)" "ids \<noteq> []"
  shows "\<exists>rows. select_in_order_by_case table ids (whens_of ids) = Inr rows
           \<and> map post_id rows = filter (\<lambda>i. i \<in> post_id ` set table) ids
           \<and> set rows \<subseteq> set table"
proof -
  let ?pos = "sql_case (whens_of ids)"
  let ?xs = "filter (\<lambda>p. post_id p \<in> set ids) table"
  let ?rows = "sort_key (\<lambda>p. ?pos (post_id p)) ?xs"
  let ?L = "map post_id ?rows"
  let ?R = "filter (\<lambda>i. i \<in> post_id ` set table) ids"
  have ne: "whens_of ids \<noteq> []"
    using assms(3) by (simp add: whens_of_def)
  have run: "select_in_order_by_case table ids (whens_of ids) = Inr ?rows"
    using ne by (simp add: select_in_order_by_case_def)
  have sorted_ids: "sorted (map ?pos ids)"
    by (simp only: sql_case_whens_of [OF assms(1)] sorted_positions)
  have "distinct (map ?pos ids)"
    by (simp only: sql_case_whens_of [OF assms(1)] distinct_positions)
  then have inj: "inj_on ?pos (set ids)"
    by (simp add: distinct_map)
  have setL: "set ?L = set ?R"
    by auto
  have subL: "set ?L \<subseteq> set ids" and subR: "set ?R \<subseteq> set ids"
    by auto
  have dL: "distinct ?L"
  proof -
    have "distinct (map post_id ?xs)"
      using assms(2) by (rule distinct_map_filter)
    then have "distinct ?xs" "inj_on post_id (set ?xs)"
      by (simp_all add: distinct_map)
    then show ?thesis
      by (simp add: distinct_map)
  qed
  have dR: "distinct ?R"
    using assms(1) by simp
  have sL: "sorted (map ?pos ?L)"
  proof -
    have "sorted (map (\<lambda>p. ?pos (post_id p)) ?rows)"
      by (rule sorted_sort_key)
    then show ?thesis
      by (simp only: map_map comp_def)
  qed
  have sR: "sorted (map ?pos ?R)"
    using sorted_ids by (rule sorted_filter)
  have "map ?pos ?L = map ?pos ?R"
  proof (rule sorted_distinct_set_unique)
    show "sorted (map ?pos ?L)" by (rule sL)
    show "sorted (map ?pos ?R)" by (rule sR)
    show "distinct (map ?pos ?L)"
      using dL inj subL by (simp only: distinct_map) (metis inj_on_subset)
    show "distinct (map ?pos ?R)"
      using dR inj subR by (simp only: distinct_map) (metis inj_on_subset)
    show "set (map ?pos ?L) = set (map ?pos ?R)"
      using setL by (simp only: set_map)
  qed
  moreover have "inj_on ?pos (set ?L \<union> set ?R)"
    using inj subL subR by (metis Un_least inj_on_subset)
  ultimately have "?L = ?R"
    by (simp only: inj_on_map_eq_map)
  moreover have "set ?rows \<subseteq> set table"
    by auto
  ultimately show ?thesis
    using run by blast
qed

lemma search_rehydrates:
  assumes "reachable c"
    and "answer c ''post'' expression ((page - 1) * per_page) per_page = (ids, n)"
    and "n \<noteq> 0" "ids \<noteq> []" "distinct ids" "distinct (map post_id (posts d))"
  shows "\<exists>rows. search (Some c) d expression page per_page = Inr (rows, n)
           \<and> map post_id rows = filter (\<lambda>i. i \<in> post_id ` set (posts d)) ids
           \<and> set rows \<subseteq> set (posts d)"
proof -
  from search_order [OF assms(5,6,4)] obtain rows where
    r: "select_in_order_by_case (posts d) ids (whens_of ids) = Inr rows"
      "map post_id rows = filter (\<lambda>i. i \<in> post_id ` set (posts d)) ids"
      "set rows \<subseteq> set (posts d)"
    by blast
  have "search (Some c) d expression page per_page = Inr (rows, n)"
    using assms(1,2,3) r(1) by (simp add: search_def query_index_def es_search_def)
  with r(2,3) show ?thesis
    by blast
qed

text \<open>
  C6. For a page past the last hit the engine answers with no ids and a total count that
  is not 0; \<open>search\<close> then passes the guard \<open>total == 0\<close> and orders by a CASE that has no
  WHEN branch, and the statement fails in the store. With the engine of the example,
  page 1 gives the posts 3 and 1 in the engine's order (id 7 is in no row and is dropped),
  and page 2, which should give no post, raises.
\<close>

theorem search_empty_page_raises:
  "query_index (Some example_engine) ''post'' ''hello'' 2 25 = Inr ([], 3)
   \<and> search (Some example_engine) example_db ''hello'' 2 25 = Inl OperationalError
   \<and> search (Some example_engine) example_db ''hello'' 1 25 =
       Inr ([example_posts ! 2, example_posts ! 0], 3)"
  by (simp add: search_def query_index_def es_search_def example_engine_def whens_of_def
        select_in_order_by_case_def sql_case_def example_db_def example_posts_def)

subsection \<open>Background tasks\<close>

lemma find_SomeD: "find P xs = Some x \<Longrightarrow> P x \<and> x \<in> set xs"
  by (induction xs) (simp_all split: if_splits)

lemma find_map_same:
  assumes "\<And>x. P (f x) = P x"
  shows "find P (map f xs) = map_option f (find P xs)"
  by (induction xs) (simp_all add: assms)

lemma users_add_notification:
  "users (fst (add_notification dumps now d self nm data)) = users d"
  by (simp add: add_notification_def Let_def)

lemma tasks_add_notification:
  "tasks (fst (add_notification dumps now d self nm data)) = tasks d"
  by (simp add: add_notification_def Let_def)

lemma mark_complete_simps:
  "task_id (mark_complete k t) = task_id t"
  "task_user_id (mark_complete k t) = task_user_id t"
  "task_id t = k \<Longrightarrow> complete (mark_complete k t)"
  by (simp_all add: mark_complete_def)

lemma set_task_progress_ready:
  assumes "task_ready w jid oid"
  shows "\<exists>w'. set_task_progress dumps w p = (w', None)
           \<and> task_ready w' jid oid \<and> logged w' = logged w
           \<and> map payload_json (live (store w') oid ''task_progress'') =
               [dumps (JDict [(''task_id'', JStr jid), (''progress'', JInt p)])]
           \<and> (100 \<le> p \<longrightarrow>
                map_option complete (find (\<lambda>t. task_id t = jid) (tasks (store w'))) = Some True)
           \<and> (map_option complete (find (\<lambda>t. task_id t = jid) (tasks (store w))) = Some True \<longrightarrow>
                map_option complete (find (\<lambda>t. task_id t = jid) (tasks (store w'))) = Some True)"
proof -
  from assms obtain job where j: "current_job w = Some job" "job_id job = jid"
    by (auto simp: task_ready_def)
  from assms obtain tsk where t: "find (\<lambda>t. task_id t = jid) (tasks (store w)) = Some tsk"
      "task_user_id tsk = oid"
    by (auto simp: task_ready_def)
  from assms obtain owner where o: "find (\<lambda>u. uid u = oid) (users (store w)) = Some owner"
    by (auto simp: task_ready_def)
  from find_SomeD [OF o] have uo: "uid owner = oid"
    by simp
  from find_SomeD [OF t(1)] have tid: "task_id tsk = jid"
    by simp
  define job' where "job' = job\<lparr>meta := (meta job)(''progress'' \<mapsto> p)\<rparr>"
  define payload where "payload = JDict [(''task_id'', JStr jid), (''progress'', JInt p)]"
  define d1 where "d1 = fst (add_notification dumps (clock w) (store w) owner ''task_progress'' payload)"
  define d2 where "d2 = (if 100 \<le> p then d1\<lparr>tasks := map (mark_complete jid) (tasks d1)\<rparr> else d1)"
  define w' where "w' = w\<lparr>current_job := Some job', store := d2\<rparr>"
  have jj: "job_id job' = jid"
    by (simp add: job'_def j(2))
  have run: "set_task_progress dumps w p = (w', None)"
    unfolding set_task_progress_def
    by (simp add: j Let_def t o tid uo w'_def d2_def d1_def payload_def job'_def mark_complete_def
          cong: if_cong)
  have u1: "users d2 = users (store w)"
    by (simp add: d2_def d1_def users_add_notification)
  have t1: "tasks d1 = tasks (store w)"
    by (simp add: d1_def tasks_add_notification)
  have f2: "find (\<lambda>t. task_id t = jid) (tasks d2) =
              Some (if 100 \<le> p then mark_complete jid tsk else tsk)"
    by (simp add: d2_def t1 t(1) find_map_same mark_complete_simps)
  have l2: "live d2 oid ''task_progress'' = live d1 oid ''task_progress''"
    by (simp add: d2_def live_def)
  have l1: "live d1 oid ''task_progress'' =
              [snd (add_notification dumps (clock w) (store w) owner ''task_progress'' payload)]"
    unfolding d1_def by (simp add: live_add_notification uo)
  have r: "task_ready w' jid oid"
    unfolding task_ready_def
    by (simp add: w'_def jj f2 u1 o t(2) mark_complete_simps)
  have lg: "logged w' = logged w"
    by (simp add: w'_def)
  have pay: "map payload_json (live (store w') oid ''task_progress'') =
               [dumps (JDict [(''task_id'', JStr jid), (''progress'', JInt p)])]"
    by (simp add: w'_def l2 l1 snd_add_notification payload_def)
  have c1: "100 \<le> p \<longrightarrow>
              map_option complete (find (\<lambda>t. task_id t = jid) (tasks (store w'))) = Some True"
    by (simp add: w'_def f2 mark_complete_simps tid)
  have c2: "map_option complete (find (\<lambda>t. task_id t = jid) (tasks (store w))) = Some True \<longrightarrow>
              map_option complete (find (\<lambda>t. task_id t = jid) (tasks (store w'))) = Some True"
    by (simp add: w'_def f2 t(1) mark_complete_simps tid)
  show ?thesis
    by (rule exI [of _ w']) (intro conjI run r lg pay c1 c2)
qed


lemma task_ready_clock: "task_ready (w\<lparr>clock := c\<rparr>) jid oid = task_ready w jid oid"
  by (simp add: task_ready_def)

lemma task_ready_outbox: "task_ready (w\<lparr>outbox := b\<rparr>) jid oid = task_ready w jid oid"
  by (simp add: task_ready_def)

lemma task_ready_logged: "task_ready (w\<lparr>logged := l\<rparr>) jid oid = task_ready w jid oid"
  by (simp add: task_ready_def)

lemma export_loop_ready:
  assumes "task_ready w jid oid"
  shows "\<exists>w' data' r. export_loop dumps fault total_posts w posts_count ps data = (w', data', r)
           \<and> task_ready w' jid oid \<and> logged w' = logged w"
  using assms
proof (induction ps arbitrary: w posts_count data)
  case Nil
  then show ?case by simp
next
  case (Cons p ps)
  define trig where "trig = (case fault of Some (k, e) \<Rightarrow> if k = posts_count then Some e else None
                                         | None \<Rightarrow> None)"
  define data' where "data' = data @ [(body p, post_timestamp p)]"
  define w1 where "w1 = w\<lparr>clock := clock w + 5\<rparr>"
  have step: "export_loop dumps fault total_posts w posts_count (p # ps) data =
      (case trig of
         Some e \<Rightarrow> (w, data', Some e)
       | None \<Rightarrow>
           if total_posts = 0 then (w1, data', Some ZeroDivisionError)
           else (case set_task_progress dumps w1 (100 * int (Suc posts_count) div int total_posts) of
                   (w2, Some e) \<Rightarrow> (w2, data', Some e)
                 | (w2, None) \<Rightarrow> export_loop dumps fault total_posts w2 (Suc posts_count) ps data'))"
    by (simp add: trig_def data'_def w1_def Let_def split: option.split)
  have r1: "task_ready w1 jid oid" and l1: "logged w1 = logged w"
    using Cons.prems by (simp_all add: w1_def task_ready_clock)
  show ?case
  proof (cases trig)
    case (Some e)
    with Cons.prems show ?thesis
      unfolding step by simp
  next
    case None
    show ?thesis
    proof (cases "total_posts = 0")
      case True
      with None r1 l1 show ?thesis
        unfolding step by simp
    next
      case False
      from set_task_progress_ready [OF r1, of dumps "100 * int (Suc posts_count) div int total_posts"]
      obtain w2 where w2: "set_task_progress dumps w1
                             (100 * int (Suc posts_count) div int total_posts) = (w2, None)"
          "task_ready w2 jid oid" "logged w2 = logged w1"
        by blast
      from Cons.IH [OF w2(2), of "Suc posts_count" data'] obtain w' d' r where
        "export_loop dumps fault total_posts w2 (Suc posts_count) ps data' = (w', d', r)"
        "task_ready w' jid oid" "logged w' = logged w2"
        by blast
      with None False w2 l1 show ?thesis
        unfolding step by simp
    qed
  qed
qed

lemma export_body_ready:
  assumes "task_ready w jid oid"
  shows "\<exists>w' r. export_body dumps fault w user_id = (w', r)
           \<and> task_ready w' jid oid \<and> logged w' = logged w"
proof -
  from set_task_progress_ready [OF assms, of dumps 0] obtain w1 where
    w1: "set_task_progress dumps w 0 = (w1, None)" "task_ready w1 jid oid" "logged w1 = logged w"
    by blast
  show ?thesis
  proof (cases "find (\<lambda>u. uid u = user_id) (users (store w))")
    case None
    with w1 show ?thesis
      by (simp add: export_body_def)
  next
    case (Some u)
    define user_posts where "user_posts = filter (\<lambda>p. post_user_id p = uid u) (posts (store w1))"
    from export_loop_ready [OF w1(2), of dumps fault "length user_posts" 0
        "sort_key post_timestamp user_posts" "[]"]
    obtain w2 data r where
      w2: "export_loop dumps fault (length user_posts) w1 0 (sort_key post_timestamp user_posts) []
             = (w2, data, r)" "task_ready w2 jid oid" "logged w2 = logged w1"
      by blast
    have body: "export_body dumps fault w user_id =
        (case r of
           Some e \<Rightarrow> (w2, Some e)
         | None \<Rightarrow>
             (case fault of
                Some (k, e) \<Rightarrow> (w2, Some e)
              | None \<Rightarrow> (w2\<lparr>outbox := outbox w2 @ [(email u, data)]\<rparr>, None)))"
      by (simp add: export_body_def Some w1(1) Let_def w2(1) user_posts_def [symmetric])
    show ?thesis
    proof (cases r)
      case (Some e)
      with w2 w1(3) show ?thesis
        unfolding body by simp
    next
      case None
      show ?thesis
      proof (cases fault)
        case None
        with \<open>r = None\<close> w2 w1(3) show ?thesis
          unfolding body by (simp add: task_ready_outbox)
      next
        case (Some ke)
        with \<open>r = None\<close> w2 w1(3) show ?thesis
          unfolding body by (cases ke) simp
      qed
    qed
  qed
qed


text \<open>
  C3. In the worker (a current job whose task and the task's owner are rows of the
  store), when the body of \<open>export_posts\<close> raises an exception \<open>e\<close>, whatever it is and
  wherever it is raised: when \<open>export_posts\<close> is left, the task of the job is complete,
  and the owner has exactly one notification named task_progress, whose payload is the
  task id with progress 100; when \<open>e\<close> is an \<open>Exception\<close> it is written to the log and
  \<open>export_posts\<close> returns without raising.
\<close>

theorem export_posts_finalizes:
  assumes "current_job w = Some job"
    and "find (\<lambda>t. task_id t = job_id job) (tasks (store w)) = Some tsk"
    and "find (\<lambda>u. uid u = task_user_id tsk) (users (store w)) = Some owner"
    and "snd (export_body dumps fault w user_id) = Some e"
  shows "map_option complete
           (find (\<lambda>t. task_id t = job_id job)
              (tasks (store (fst (export_posts dumps fault w user_id))))) = Some True
       \<and> map payload_json
           (live (store (fst (export_posts dumps fault w user_id))) (uid owner) ''task_progress'')
         = [dumps (JDict [(''task_id'', JStr (job_id job)), (''progress'', JInt 100)])]
       \<and> (is_Exception e \<longrightarrow>
            snd (export_posts dumps fault w user_id) = None
            \<and> logged (fst (export_posts dumps fault w user_id)) = logged w @ [e])"
proof -
  let ?jid = "job_id job"
  from find_SomeD [OF assms(3)] have uo: "uid owner = task_user_id tsk"
    by simp
  have r0: "task_ready w ?jid (uid owner)"
    by (simp add: task_ready_def assms(1,2,3) uo)
  from export_body_ready [OF r0, of dumps fault user_id] obtain w1 r where
    b: "export_body dumps fault w user_id = (w1, r)" "task_ready w1 ?jid (uid owner)"
      "logged w1 = logged w"
    by blast
  with assms(4) have b': "export_body dumps fault w user_id = (w1, Some e)"
    by simp
  show ?thesis
  proof (cases "is_Exception e")
    case True
    from set_task_progress_ready [OF b(2), of dumps 100] obtain wa where
      wa: "set_task_progress dumps w1 100 = (wa, None)" "task_ready wa ?jid (uid owner)"
        "logged wa = logged w1"
      by blast
    define w2 where "w2 = wa\<lparr>logged := logged wa @ [e]\<rparr>"
    have r2: "task_ready w2 ?jid (uid owner)"
      using wa(2) by (simp add: w2_def task_ready_logged)
    from set_task_progress_ready [OF r2, of dumps 100] obtain w3 where
      w3: "set_task_progress dumps w2 100 = (w3, None)" "logged w3 = logged w2"
        "map payload_json (live (store w3) (uid owner) ''task_progress'') =
           [dumps (JDict [(''task_id'', JStr ?jid), (''progress'', JInt 100)])]"
        "map_option complete (find (\<lambda>t. task_id t = ?jid) (tasks (store w3))) = Some True"
      by auto
    have run: "export_posts dumps fault w user_id = (w3, None)"
      by (simp add: export_posts_def b' True wa(1) w2_def [symmetric] w3(1))
    have "logged w3 = logged w @ [e]"
      by (simp add: w3(2) w2_def wa(3) b(3))
    with w3(3,4) True show ?thesis
      by (simp add: run)
  next
    case False
    from set_task_progress_ready [OF b(2), of dumps 100] obtain w3 where
      w3: "set_task_progress dumps w1 100 = (w3, None)"
        "map payload_json (live (store w3) (uid owner) ''task_progress'') =
           [dumps (JDict [(''task_id'', JStr ?jid), (''progress'', JInt 100)])]"
        "map_option complete (find (\<lambda>t. task_id t = ?jid) (tasks (store w3))) = Some True"
      by auto
    have run: "export_posts dumps fault w user_id = (w3, Some e)"
      by (simp add: export_posts_def b' False w3(1))
    with w3(2,3) False show ?thesis
      by simp
  qed
qed

theorem export_posts_finalizes_witness:
  "current_job example_world = Some example_job
   \<and> find (\<lambda>t. task_id t = job_id example_job) (tasks (store example_world)) = Some example_task
   \<and> find (\<lambda>u. uid u = task_user_id example_task) (users (store example_world)) = Some bob
   \<and> snd (export_body example_dumps (Some (1, MailError)) example_world 2) = Some MailError
   \<and> is_Exception MailError
   \<and> map_option complete
         (find (\<lambda>t. task_id t = ''job-1'')
            (tasks (store (fst (export_posts example_dumps (Some (1, MailError)) example_world 2)))))
       = Some True
   \<and> map payload_json
         (live (store (fst (export_posts example_dumps (Some (1, MailError)) example_world 2)))
            2 ''task_progress'')
       = [example_dumps (JDict [(''task_id'', JStr ''job-1''), (''progress'', JInt 100)])]
   \<and> snd (export_posts example_dumps (Some (1, MailError)) example_world 2) = None
   \<and> logged (fst (export_posts example_dumps (Some (1, MailError)) example_world 2)) = [MailError]"
proof -
  have h1: "current_job example_world = Some example_job"
    by (simp add: example_world_def)
  have h2: "find (\<lambda>t. task_id t = job_id example_job) (tasks (store example_world))
              = Some example_task"
    by (simp add: example_world_def example_job_def example_task_def)
  have h3: "find (\<lambda>u. uid u = task_user_id example_task) (users (store example_world)) = Some bob"
    by (simp add: example_world_def example_db_def example_task_def alice_def bob_def)
  have h4: "snd (export_body example_dumps (Some (1, MailError)) example_world 2) = Some MailError"
    by (simp add: export_body_def set_task_progress_def add_notification_def Let_def
          example_world_def example_db_def example_posts_def example_job_def example_task_def
          alice_def bob_def carol_def)
  have h5: "is_Exception MailError"
    by (simp add: is_Exception_def)
  have l: "logged example_world = []"
    by (simp add: example_world_def)
  have j: "job_id example_job = ''job-1''" and o: "uid bob = 2"
    by (simp_all add: example_job_def bob_def)
  note t = export_posts_finalizes [OF h1 h2 h3 h4, unfolded j o l append_Nil]
  show ?thesis
    by (intro conjI h1 h2 h3 h4 h5 t [THEN conjunct1] t [THEN conjunct2, THEN conjunct1]
          t [THEN conjunct2, THEN conjunct2, THEN mp, OF h5, THEN conjunct1]
          t [THEN conjunct2, THEN conjunct2, THEN mp, OF h5, THEN conjunct2])
qed

end
